(* ===== verification/Prelude.thy ===== *)
theory Prelude
  imports Main
begin

text \<open>
  Shared vocabulary of the development. JavaScript strings are modelled as
  \<open>string\<close> (a list of 8-bit code units: the paths of the route table are ASCII);
  the built-ins the router code calls on them are defined here once:
  \<^item> \<open>split_on c s\<close> is \<^verbatim>\<open>s.split(c)\<close> for a one-character separator;
  \<^item> \<open>join_on c ws\<close> is \<^verbatim>\<open>ws.join(c)\<close>;
  \<^item> \<open>before_char\<close> / \<open>from_char\<close> are \<^verbatim>\<open>s.slice(0, s.indexOf(c))\<close> and
    \<^verbatim>\<open>s.slice(s.indexOf(c))\<close>, with the \<^verbatim>\<open>indexOf = -1\<close> case (no
    occurrence: the whole string, resp. the empty string) written out.
  The collection \<open>js_simps\<close> gathers the evaluation rules of these built-ins, so that
  component proofs can say \<open>simp add: js_simps\<close>.
\<close>

named_theorems js_simps "evaluation rules of the JavaScript built-ins"

type_synonym url = string

text \<open>
  A JavaScript exception is a value of \<open>js_error\<close>; code that may throw returns
  \<open>js_error + 'a\<close>, and \<open>js_bind\<close> sequences two such steps the way a statement
  sequence propagates an exception. Code that mutates shared state before it throws
  (Vue's global object) throws \<open>'s js_thrown\<close>: the exception together with the state
  at the throw, since JavaScript does not undo the assignments made before it.
  \<open>js_bind\<close> is polymorphic in what it propagates.
\<close>

datatype js_error = Type_error string

type_synonym 's js_thrown = "js_error \<times> 's"

definition js_bind :: "'e + 'a \<Rightarrow> ('a \<Rightarrow> 'e + 'b) \<Rightarrow> 'e + 'b" where
  "js_bind r f = (case r of Inl e \<Rightarrow> Inl e | Inr a \<Rightarrow> f a)"

subsection \<open>\<^verbatim>\<open>String.prototype.split\<close> and \<^verbatim>\<open>Array.prototype.join\<close>\<close>

fun split_on :: "char \<Rightarrow> string \<Rightarrow> string list" where
  "split_on c [] = [[]]"
| "split_on c (x # xs) =
     (let r = split_on c xs in if x = c then [] # r else (x # hd r) # tl r)"

fun join_on :: "char \<Rightarrow> string list \<Rightarrow> string" where
  "join_on c [] = []"
| "join_on c [w] = w"
| "join_on c (w # v # ws) = w @ c # join_on c (v # ws)"

definition before_char :: "char \<Rightarrow> string \<Rightarrow> string" where
  "before_char c s = takeWhile (\<lambda>x. x \<noteq> c) s"

definition from_char :: "char \<Rightarrow> string \<Rightarrow> string" where
  "from_char c s = dropWhile (\<lambda>x. x \<noteq> c) s"

text \<open>
  \<^verbatim>\<open>xs.slice(0, k)\<close>: a negative end counts from the end of the array, an end
  past it stops at it.
\<close>

definition js_slice_to :: "'a list \<Rightarrow> int \<Rightarrow> 'a list" where
  "js_slice_to xs k = take (nat (if k < 0 then int (length xs) + k else k)) xs"

declare js_slice_to_def [js_simps]

text \<open>
  \<^verbatim>\<open>xs[i]\<close>: an index outside the array reads \<^verbatim>\<open>undefined\<close> (\<open>None\<close>);
  reading a property of that value then throws.
\<close>

definition js_array_get :: "'a list \<Rightarrow> int \<Rightarrow> 'a option" where
  "js_array_get xs i = (if 0 \<le> i \<and> i < int (length xs) then Some (xs ! nat i) else None)"

declare split_on.simps [js_simps] join_on.simps [js_simps]
  before_char_def [js_simps] from_char_def [js_simps]

subsection \<open>Facts about the built-ins\<close>

lemma js_bind_simps [simp, js_simps]:
  "js_bind (Inl e) f = Inl e"
  "js_bind (Inr a) f = f a"
  by (simp_all add: js_bind_def)

lemma js_bind_split:
  "P (js_bind r f) \<longleftrightarrow> (\<forall>e. r = Inl e \<longrightarrow> P (Inl e)) \<and> (\<forall>a. r = Inr a \<longrightarrow> P (f a))"
  by (cases r) simp_all

lemma js_bind_split_asm:
  "P (js_bind r f) \<longleftrightarrow> \<not> ((\<exists>e. r = Inl e \<and> \<not> P (Inl e)) \<or> (\<exists>a. r = Inr a \<and> \<not> P (f a)))"
  by (cases r) simp_all

lemmas js_bind_splits = js_bind_split js_bind_split_asm

lemma js_bind_eq_Inl:
  "js_bind r f = Inl e \<longleftrightarrow> r = Inl e \<or> (\<exists>a. r = Inr a \<and> f a = Inl e)"
  by (cases r) simp_all

lemma js_bind_eq_Inr:
  "js_bind r f = Inr b \<longleftrightarrow> (\<exists>a. r = Inr a \<and> f a = Inr b)"
  by (cases r) simp_all

lemma split_on_not_Nil [simp]: "split_on c s \<noteq> []"
  by (induction s) (auto simp: Let_def)

lemma join_on_Cons_split:
  "join_on c (w # split_on c s) = w @ c # join_on c (split_on c s)"
  by (cases "split_on c s") simp_all

lemma join_split_on [simp]: "join_on c (split_on c s) = s"
proof (induction s)
  case Nil
  then show ?case by simp
next
  case (Cons x xs)
  obtain w ws where r: "split_on c xs = w # ws"
    using split_on_not_Nil by (cases "split_on c xs") auto
  show ?case
  proof (cases "x = c")
    case True
    with Cons.IH r show ?thesis by (simp add: join_on_Cons_split)
  next
    case False
    with Cons.IH r show ?thesis by (cases ws) simp_all
  qed
qed

lemma join_on_append:
  "xs \<noteq> [] \<Longrightarrow> ys \<noteq> [] \<Longrightarrow> join_on c (xs @ ys) = join_on c xs @ c # join_on c ys"
proof (induction c xs rule: join_on.induct)
  case (2 c w)
  then show ?case by (cases ys) simp_all
qed simp_all

lemma split_on_no_sep: "c \<notin> set s \<Longrightarrow> split_on c s = [s]"
  by (induction s) (auto simp: Let_def)

lemma before_from_char [simp]: "before_char c s @ from_char c s = s"
  by (simp add: before_char_def from_char_def)

lemma before_char_no_sep [simp]: "c \<notin> set s \<Longrightarrow> before_char c s = s"
  by (induction s) (auto simp: before_char_def)

lemma from_char_no_sep [simp]: "c \<notin> set s \<Longrightarrow> from_char c s = []"
  by (induction s) (auto simp: from_char_def)

lemma before_char_append_sep:
  "c \<notin> set p \<Longrightarrow> before_char c (p @ c # r) = p"
  by (induction p) (auto simp: before_char_def)

lemma from_char_append_sep:
  "c \<notin> set p \<Longrightarrow> from_char c (p @ c # r) = c # r"
  by (induction p) (auto simp: from_char_def)

lemma set_before_char: "c \<notin> set (before_char c s)"
  by (induction s) (auto simp: before_char_def)

subsection \<open>Lists and options\<close>

lemma filter_eq_snoc: "filter (\<lambda>p. p = c) xs @ [c] = c # filter (\<lambda>p. p = c) xs"
  by (induction xs) auto

lemma find_append_None:
  "find P xs = None \<Longrightarrow> find P (xs @ ys) = find P ys"
  by (induction xs) auto

lemma find_append:
  "find P (xs @ ys) = (case find P xs of None \<Rightarrow> find P ys | Some z \<Rightarrow> Some z)"
  by (induction xs) auto

lemma find_filter: "find P (filter Q xs) = find (\<lambda>x. Q x \<and> P x) xs"
  by (induction xs) auto

lemma find_Some_in_set: "find P xs = Some x \<Longrightarrow> x \<in> set xs \<and> P x"
  by (induction xs) (auto split: if_splits)

lemma find_unique:
  assumes "x \<in> set xs" and "P x" and "\<And>y. y \<in> set xs \<Longrightarrow> P y \<Longrightarrow> y = x"
  shows "find P xs = Some x"
  using assms
proof (induction xs)
  case Nil
  then show ?case by simp
next
  case (Cons a xs)
  show ?case
  proof (cases "P a")
    case True
    with Cons.prems(3) have "a = x" by simp
    with True show ?thesis by simp
  next
    case False
    with Cons.prems(1,2) have x: "x \<in> set xs" by auto
    have "\<And>y. y \<in> set xs \<Longrightarrow> P y \<Longrightarrow> y = x"
      using Cons.prems(3) by (meson list.set_intros(2))
    with x Cons.prems(2) have "find P xs = Some x" by (rule Cons.IH)
    with False show ?thesis by simp
  qed
qed

lemma find_same_set:
  assumes set: "set xs = set ys" and uniq: "\<And>a b. a \<in> set xs \<Longrightarrow> b \<in> set xs \<Longrightarrow> P a \<Longrightarrow> P b \<Longrightarrow> a = b"
  shows "find P xs = find P ys"
proof (cases "find P xs")
  case None
  then have "find P ys = None" using set by (simp add: find_None_iff)
  with None show ?thesis by simp
next
  case (Some a)
  from find_Some_in_set [OF Some] have a: "a \<in> set ys" "P a" using set by auto
  have "find P ys = Some a"
  proof (rule find_unique [where P = P, OF a])
    fix b assume "b \<in> set ys" "P b"
    with a set show "b = a" by (auto intro: uniq)
  qed
  with Some show ?thesis by simp
qed

lemma length_filter_le_1:
  assumes "distinct xs" and "\<And>a b. a \<in> set xs \<Longrightarrow> b \<in> set xs \<Longrightarrow> P a \<Longrightarrow> P b \<Longrightarrow> a = b"
  shows "length (filter P xs) \<le> 1"
proof -
  have "length (filter P xs) = card (set (filter P xs))"
    using assms(1) by (simp add: distinct_card [symmetric] del: set_filter)
  also have "card (set (filter P xs)) \<le> 1"
    using assms(2) by (auto intro: card_le_Suc0_iff_eq [THEN iffD2])
  finally show ?thesis .
qed

end
