(* ===== verification/Path_Match.thy ===== *)
theory Path_Match
  imports Prelude
begin

text \<open>
  The path handling of the hosting router (vue-router 3, which
  \<^verbatim>\<open>src/vue-frontend/src/router/index.js\<close> configures): how a declared route path is
  normalised and compiled to a regular expression, how a regular expression with the
  \<^verbatim>\<open>i\<close> flag compares a location path against it, how a raw location string is
  split into path, query and hash, and how a relative path is resolved against the
  current one. Route paths are modelled for the fragment the source uses: paths
  without parameters (\<^verbatim>\<open>:id\<close>), groups or escapes, plus the catch-all
  \<^verbatim>\<open>*\<close>; any other path compiles to \<open>Unmodelled\<close>, which the well-formedness
  predicate of the route map excludes.
\<close>

section \<open>Case-insensitive comparison\<close>

text \<open>
  path-to-regexp compiles with \<^verbatim>\<open>sensitive: false\<close>, i.e. the \<^verbatim>\<open>i\<close> flag. A
  non-unicode JavaScript regular expression with that flag compares code units after
  Canonicalize (ES5 15.10.2.8): the code unit of \<^verbatim>\<open>toUpperCase\<close> of the
  character, kept only when it is a single code unit. Within 8-bit code units that maps
  \<^verbatim>\<open>a\<close>..\<^verbatim>\<open>z\<close> and U+00E0..U+00FE (but U+00F7) down by 32;
  U+00B5 and U+00FF map to code units outside the 8-bit range that no other 8-bit unit
  reaches, so leaving them unchanged gives the same equivalence.
\<close>

definition canonicalize :: "char \<Rightarrow> nat" where
  "canonicalize c = (let n = (of_char c :: nat) in
     if (97 \<le> n \<and> n \<le> 122) \<or> (224 \<le> n \<and> n \<le> 254 \<and> n \<noteq> 247) then n - 32 else n)"

definition fold_case :: "string \<Rightarrow> nat list" where
  "fold_case s = map canonicalize s"

section \<open>Route paths and their regular expressions\<close>

text \<open>
  \<^verbatim>\<open>normalizePath(path, parent, strict)\<close> of create-route-map.js for a top-level
  route (\<^verbatim>\<open>parent == null\<close>) and \<^verbatim>\<open>strict\<close> unset:
  \<^verbatim>\<open>path.replace(/\/$/, '')\<close> removes one trailing slash, and both later branches
  return the path unchanged.
\<close>

definition normalize_path :: "string \<Rightarrow> string" where
  "normalize_path p = (if p \<noteq> [] \<and> last p = CHR ''/'' then butlast p else p)"

text \<open>
  \<^verbatim>\<open>compileRouteRegex(path, {})\<close> calls path-to-regexp with \<^verbatim>\<open>strict\<close> and
  \<^verbatim>\<open>sensitive\<close> false and \<^verbatim>\<open>end\<close> true. A path with no token gives
  \<^verbatim>\<open>^\<close>\<open>b\<close>\<^verbatim>\<open>(?:\/(?=$))?$\<close> with flag \<^verbatim>\<open>i\<close>, where \<open>b\<close> is the
  escaped path with one trailing delimiter removed (\<^verbatim>\<open>endsWithDelimiter\<close>); the
  path \<^verbatim>\<open>*\<close> is the single asterisk token \<^verbatim>\<open>(.*)\<close>. Characters that may start
  a token (\<^verbatim>\<open>:\<close>, \<^verbatim>\<open>(\<close>, \<^verbatim>\<open>*\<close>, backslash) put a path outside the
  modelled fragment.
\<close>

datatype route_regex = Static string | Catch_all | Unmodelled string

definition token_chars :: "char list" where
  "token_chars = [CHR '':'', CHR ''('', CHR ''*'', CHR 0x5C]"

definition compile_route_regex :: "string \<Rightarrow> route_regex" where
  "compile_route_regex p =
     (if p = ''*'' then Catch_all
      else if list_ex (\<lambda>c. c \<in> set token_chars) p then Unmodelled p
      else Static (if p \<noteq> [] \<and> last p = CHR ''/'' then butlast p else p))"

text \<open>
  \<^verbatim>\<open>path.match(regex)\<close> for the compiled expressions: a static one matches the
  base, or the base followed by one slash, up to Canonicalize.
\<close>

fun regex_matches :: "route_regex \<Rightarrow> string \<Rightarrow> bool" where
  "regex_matches (Static b) x = (fold_case x = fold_case b \<or> fold_case x = fold_case (b @ ''/''))"
| "regex_matches Catch_all x = True"
| "regex_matches (Unmodelled p) x = False"

text \<open>
  The fragment of route paths the model is exact on: no token character, and at most
  one trailing slash (so the normalised path does not end with one). Two such paths
  compete for the same locations exactly when their keys, the case-folded
  normalised paths, agree.
\<close>

definition static_route_path :: "string \<Rightarrow> bool" where
  "static_route_path p \<longleftrightarrow>
     \<not> list_ex (\<lambda>c. c \<in> set token_chars) p \<and>
     \<not> (normalize_path p \<noteq> [] \<and> last (normalize_path p) = CHR ''/'')"

definition route_key :: "string \<Rightarrow> nat list" where
  "route_key p = fold_case (normalize_path p)"

section \<open>Raw locations\<close>

text \<open>
  \<^verbatim>\<open>parsePath(path)\<close> of util/path.js: the hash is everything from the first
  \<^verbatim>\<open>#\<close> on (with the \<^verbatim>\<open>#\<close>), the query everything after the first
  \<^verbatim>\<open>?\<close> before it (without the \<^verbatim>\<open>?\<close>), the path what precedes both.
\<close>

record parsed_path =
  pp_path :: string
  pp_query :: string
  pp_hash :: string

definition parse_path :: "string \<Rightarrow> parsed_path" where
  "parse_path s =
     (let hash = from_char CHR ''#'' s;
          rest = before_char CHR ''#'' s;
          query = drop 1 (from_char CHR ''?'' rest);
          path = before_char CHR ''?'' rest
      in \<lparr>pp_path = path, pp_query = query, pp_hash = hash\<rparr>)"

text \<open>A location string that \<^verbatim>\<open>normalizeLocation\<close> passes through unchanged.\<close>

definition plain_absolute_path :: "string \<Rightarrow> bool" where
  "plain_absolute_path s \<longleftrightarrow> take 1 s = ''/'' \<and> CHR ''#'' \<notin> set s \<and> CHR ''?'' \<notin> set s"

text \<open>
  A relative location made of plain segments: not absolute, no query or hash, and no
  \<^verbatim>\<open>.\<close> or \<^verbatim>\<open>..\<close> segment.
\<close>

definition plain_relative_path :: "string \<Rightarrow> bool" where
  "plain_relative_path x \<longleftrightarrow>
     x \<noteq> [] \<and> take 1 x \<noteq> ''/'' \<and> CHR ''#'' \<notin> set x \<and> CHR ''?'' \<notin> set x \<and>
     list_all (\<lambda>s. s \<noteq> ''.'' \<and> s \<noteq> ''..'') (split_on CHR ''/'' x)"

text \<open>
  \<^verbatim>\<open>resolvePath(relative, base, append)\<close> of util/path.js: an absolute path is
  kept; a bare query or hash is appended to the base; otherwise the base is split at
  \<^verbatim>\<open>/\<close>, its last segment dropped (unless appending to a non-empty last segment),
  the segments of the relative path pushed (\<^verbatim>\<open>..\<close> pops, \<^verbatim>\<open>.\<close> is skipped) and
  a leading empty segment ensured before joining.
\<close>

definition push_segment :: "string list \<Rightarrow> string \<Rightarrow> string list" where
  "push_segment stack seg =
     (if seg = ''..'' then butlast stack else if seg = ''.'' then stack else stack @ [seg])"

definition resolve_path :: "string \<Rightarrow> string \<Rightarrow> bool \<Rightarrow> string" where
  "resolve_path relative base app =
     (if take 1 relative = ''/'' then relative
      else if take 1 relative = ''?'' \<or> take 1 relative = ''#'' then base @ relative
      else
        (let stack0 = split_on CHR ''/'' base;
             stack1 = (if \<not> app \<or> last stack0 = [] then butlast stack0 else stack0);
             segments = split_on CHR ''/'' (if take 1 relative = ''/'' then drop 1 relative else relative);
             stack2 = foldl push_segment stack1 segments;
             stack3 = (if take 1 stack2 = [[]] then stack2 else [] # stack2)
         in join_on CHR ''/'' stack3))"

section \<open>Facts about route paths\<close>

lemma fold_case_simps [simp]:
  "fold_case [] = []"
  "fold_case (c # s) = canonicalize c # fold_case s"
  "fold_case (s @ t) = fold_case s @ fold_case t"
  by (simp_all add: fold_case_def)

lemma canonicalize_slash_value [simp]: "canonicalize CHR ''/'' = 47"
  by (simp add: canonicalize_def)

lemma canonicalize_slash: "canonicalize c = 47 \<longleftrightarrow> c = CHR ''/''"
proof
  assume "canonicalize c = 47"
  then have "of_char c = (47::nat)"
    by (auto simp: canonicalize_def Let_def split: if_splits)
  moreover have "of_char (CHR ''/'') = (47::nat)" by simp
  ultimately have "(of_char c :: nat) = of_char (CHR ''/'')" by simp
  then show "c = CHR ''/''" by (rule of_char_eqI)
qed (simp add: canonicalize_def)

lemma fold_case_snoc_slash:
  "fold_case s = xs @ [47] \<Longrightarrow> s \<noteq> [] \<and> last s = CHR ''/''"
proof -
  assume h: "fold_case s = xs @ [47]"
  then have "s \<noteq> []" by (auto simp: fold_case_def)
  moreover have "canonicalize (last s) = 47"
    using h calculation by (metis fold_case_def last_map last_snoc)
  ultimately show ?thesis by (simp add: canonicalize_slash)
qed

lemma static_route_path_compile:
  "static_route_path p \<Longrightarrow> compile_route_regex (normalize_path p) = Static (normalize_path p)"
proof -
  assume s: "static_route_path p"
  have "\<not> list_ex (\<lambda>c. c \<in> set token_chars) (normalize_path p)"
    using s by (auto simp: static_route_path_def normalize_path_def list_ex_iff dest: in_set_butlastD)
  moreover have "normalize_path p \<noteq> ''*''"
    using calculation by (auto simp: token_chars_def)
  ultimately show ?thesis
    using s by (auto simp: compile_route_regex_def static_route_path_def)
qed

lemma fold_case_normalize_path_cases:
  "fold_case p = fold_case (normalize_path p) \<or> fold_case p = fold_case (normalize_path p) @ [47]"
  by (cases p rule: rev_cases) (auto simp: normalize_path_def)

lemma static_route_path_self_match:
  "static_route_path p \<Longrightarrow> regex_matches (compile_route_regex (normalize_path p)) p"
  using fold_case_normalize_path_cases [of p] by (auto simp: static_route_path_compile)

lemma static_route_path_match_key:
  assumes sp: "static_route_path p" and sq: "static_route_path q"
    and m: "regex_matches (compile_route_regex (normalize_path q)) p"
  shows "route_key q = route_key p"
proof -
  let ?bp = "fold_case (normalize_path p)" and ?bq = "fold_case (normalize_path q)"
  have np: "\<not> (\<exists>xs. ?bp = xs @ [47])" and nq: "\<not> (\<exists>xs. ?bq = xs @ [47])"
    using sp sq fold_case_snoc_slash unfolding static_route_path_def by blast+
  from m sq have q: "fold_case p = ?bq \<or> fold_case p = ?bq @ [47]"
    by (simp add: static_route_path_compile)
  have p: "fold_case p = ?bp \<or> fold_case p = ?bp @ [47]"
    by (rule fold_case_normalize_path_cases)
  from p q np nq have "?bp = ?bq" by (metis append1_eq_conv)
  then show ?thesis by (simp add: route_key_def)
qed

lemma static_routes_match_same_key:
  assumes sp: "static_route_path p" and sq: "static_route_path q"
    and mp: "regex_matches (compile_route_regex (normalize_path p)) x"
    and mq: "regex_matches (compile_route_regex (normalize_path q)) x"
  shows "route_key p = route_key q"
proof -
  let ?bp = "fold_case (normalize_path p)" and ?bq = "fold_case (normalize_path q)"
  have np: "\<not> (\<exists>xs. ?bp = xs @ [47])" and nq: "\<not> (\<exists>xs. ?bq = xs @ [47])"
    using sp sq fold_case_snoc_slash unfolding static_route_path_def by blast+
  from mp sp have p: "fold_case x = ?bp \<or> fold_case x = ?bp @ [47]"
    by (simp add: static_route_path_compile)
  from mq sq have q: "fold_case x = ?bq \<or> fold_case x = ?bq @ [47]"
    by (simp add: static_route_path_compile)
  from p q np nq have "?bp = ?bq" by (metis append1_eq_conv)
  then show ?thesis by (simp add: route_key_def)
qed

section \<open>Facts about raw locations\<close>

lemma parse_path_plain:
  "CHR ''#'' \<notin> set s \<Longrightarrow> CHR ''?'' \<notin> set s \<Longrightarrow> parse_path s = \<lparr>pp_path = s, pp_query = [], pp_hash = []\<rparr>"
  by (simp add: parse_path_def)

theorem parse_path_roundtrip:
  assumes "CHR ''#'' \<notin> set p" "CHR ''?'' \<notin> set p" "CHR ''#'' \<notin> set q"
  shows "parse_path (p @ ''?'' @ q @ ''#'' @ h) = \<lparr>pp_path = p, pp_query = q, pp_hash = ''#'' @ h\<rparr>"
proof -
  have nh: "CHR ''#'' \<notin> set (p @ CHR ''?'' # q)" using assms by simp
  have hash: "from_char CHR ''#'' ((p @ CHR ''?'' # q) @ CHR ''#'' # h) = CHR ''#'' # h"
    by (rule from_char_append_sep [OF nh])
  have rest: "before_char CHR ''#'' ((p @ CHR ''?'' # q) @ CHR ''#'' # h) = p @ CHR ''?'' # q"
    by (rule before_char_append_sep [OF nh])
  have query: "from_char CHR ''?'' (p @ CHR ''?'' # q) = CHR ''?'' # q"
    by (rule from_char_append_sep [OF assms(2)])
  have path: "before_char CHR ''?'' (p @ CHR ''?'' # q) = p"
    by (rule before_char_append_sep [OF assms(2)])
  have "p @ ''?'' @ q @ ''#'' @ h = (p @ CHR ''?'' # q) @ CHR ''#'' # h" by simp
  with hash rest query path show ?thesis by (simp only: parse_path_def Let_def) simp
qed

lemma foldl_push_segment_plain:
  "list_all (\<lambda>s. s \<noteq> ''.'' \<and> s \<noteq> ''..'') segs \<Longrightarrow> foldl push_segment st segs = st @ segs"
  by (induction segs arbitrary: st) (simp_all add: push_segment_def)

lemma resolve_path_plain_relative:
  assumes x: "plain_relative_path x" and base: "take 1 base = ''/''"
  shows "resolve_path x base False = join_on CHR ''/'' (butlast (split_on CHR ''/'' base)) @ CHR ''/'' # x"
proof -
  obtain b where b: "base = CHR ''/'' # b"
    using base by (cases base) auto
  have x1: "x \<noteq> []" "take 1 x \<noteq> ''/''" "take 1 x \<noteq> ''?''" "take 1 x \<noteq> ''#''"
    and segs: "list_all (\<lambda>s. s \<noteq> ''.'' \<and> s \<noteq> ''..'') (split_on CHR ''/'' x)"
    using x by (cases x; auto simp: plain_relative_path_def)+
  let ?d = "butlast (split_on CHR ''/'' base)"
  have d: "?d = [] # butlast (split_on CHR ''/'' b)"
    by (simp add: b)
  have "foldl push_segment ?d (split_on CHR ''/'' x) = ?d @ split_on CHR ''/'' x"
    by (rule foldl_push_segment_plain [OF segs])
  then have "resolve_path x base False = join_on CHR ''/'' (?d @ split_on CHR ''/'' x)"
    using x1 by (simp add: resolve_path_def Let_def d)
  also have "\<dots> = join_on CHR ''/'' ?d @ CHR ''/'' # x"
    by (subst join_on_append) (simp_all add: d)
  finally show ?thesis .
qed

lemma resolve_path_sibling:
  assumes "plain_relative_path x" and "CHR ''/'' \<notin> set w"
  shows "resolve_path x (CHR ''/'' # w) False = CHR ''/'' # x"
  using resolve_path_plain_relative [OF assms(1), of "CHR ''/'' # w"]
  by (simp add: split_on_no_sep [OF assms(2)])

lemma split_on_parent_prefix:
  "split_on CHR ''/'' (concat (replicate k ''../'') @ x) = replicate k ''..'' @ split_on CHR ''/'' x"
  by (induction k) (simp_all add: Let_def)

lemma foldl_push_segment_parents:
  "foldl push_segment st (replicate k ''..'') = take (length st - k) st"
  by (induction k arbitrary: st) (simp_all add: push_segment_def butlast_conv_take)

lemma resolve_path_parents:
  assumes x: "plain_relative_path x" and w: "CHR ''/'' \<notin> set w"
  shows "resolve_path (concat (replicate k ''../'') @ x) (CHR ''/'' # w) False = CHR ''/'' # x"
proof (cases k)
  case 0
  then show ?thesis using resolve_path_sibling [OF x w] by simp
next
  case (Suc j)
  obtain c x' where cx: "x = c # x'" and c: "c \<noteq> CHR ''/''" "c \<noteq> CHR ''?''" "c \<noteq> CHR ''#''"
    using x by (cases x) (auto simp: plain_relative_path_def)
  have segs: "list_all (\<lambda>s. s \<noteq> ''.'' \<and> s \<noteq> ''..'') (split_on CHR ''/'' x)"
    using x by (simp add: plain_relative_path_def)
  have hd: "take 1 (split_on CHR ''/'' x) \<noteq> [[]]"
    using c by (cases "split_on CHR ''/'' x'") (simp_all add: cx Let_def)
  have "foldl push_segment [[]] (replicate k ''..'' @ split_on CHR ''/'' x) = split_on CHR ''/'' x"
    using Suc by (simp add: foldl_push_segment_parents foldl_push_segment_plain [OF segs] push_segment_def)
  moreover have "take 1 x \<noteq> ''/''" "take 1 x \<noteq> ''?''" "take 1 x \<noteq> ''#''"
    using c by (simp_all add: cx)
  ultimately show ?thesis
    using Suc hd
    by (simp add: resolve_path_def Let_def split_on_no_sep [OF w] split_on_parent_prefix join_on_Cons_split)
qed
lemma resolve_path_parents_only:
  assumes w: "CHR ''/'' \<notin> set w"
  shows "resolve_path (concat (replicate (Suc k) ''../'')) (CHR ''/'' # w) False = []"
proof -
  have "foldl push_segment [[]] (replicate (Suc k) ''..'' @ [[]]) = [[]]"
    by (simp add: foldl_push_segment_parents push_segment_def del: replicate_Suc)
  moreover have "take 1 (concat (replicate (Suc k) ''../'')) = ''.''" by simp
  ultimately show ?thesis
    using split_on_parent_prefix [of "Suc k" "[]"]
    by (simp add: resolve_path_def Let_def split_on_no_sep [OF w] del: replicate_Suc)
qed

end
