(* ===== verification/Route_Map.thy ===== *)
theory Route_Map
  imports Path_Match
begin

text \<open>
  The route map of the hosting router: vue-router's create-route-map.js turns the
  \<^verbatim>\<open>routes\<close> array of the configuration into a path list (the order paths are
  tried in), a path map and a name map (\<^verbatim>\<open>Object.create(null)\<close> dictionaries,
  modelled as maps), and create-matcher.js looks a location up in them. Route
  configurations are polymorphic in the component type \<open>'c\<close>: the route table of
  the application instantiates it. Fields of a configuration that the source never
  sets (children, alias, redirect, meta, \<^verbatim>\<open>caseSensitive\<close>,
  \<^verbatim>\<open>pathToRegexpOptions\<close>) are not modelled.
\<close>

section \<open>Data\<close>

text \<open>A route configuration: the object literals of the \<^verbatim>\<open>routes\<close> array.\<close>

record 'c route_config =
  path :: string
  name :: "string option"
  component :: 'c

text \<open>
  A route record, as built by \<^verbatim>\<open>addRouteRecord\<close>: the normalised path, its
  compiled regular expression, the name and \<^verbatim>\<open>components.default\<close>.
\<close>

record 'c route_record =
  rr_path :: string
  rr_regex :: route_regex
  rr_name :: "string option"
  rr_component :: 'c

record 'c route_map =
  path_list :: "string list"
  path_map :: "string \<rightharpoonup> 'c route_record"
  name_map :: "string \<rightharpoonup> 'c route_record"

section \<open>Building the route map\<close>

definition empty_route_map :: "'c route_map" where
  "empty_route_map = \<lparr>path_list = [], path_map = Map.empty, name_map = Map.empty\<rparr>"

definition make_route_record :: "'c route_config \<Rightarrow> 'c route_record" where
  "make_route_record route =
     (let normalized_path = normalize_path (path route)
      in \<lparr>rr_path = normalized_path, rr_regex = compile_route_regex normalized_path,
          rr_name = name route, rr_component = component route\<rparr>)"

text \<open>
  \<^verbatim>\<open>addRouteRecord\<close>: the record is stored under its path only if the path is new
  (\<^verbatim>\<open>if (!pathMap[record.path])\<close>), and under its name only if the name is truthy
  and new (\<^verbatim>\<open>if (name) { if (!nameMap[name]) ... }\<close>; the duplicate case only warns).
\<close>

definition add_route_record :: "'c route_map \<Rightarrow> 'c route_config \<Rightarrow> 'c route_map" where
  "add_route_record m route =
     (let record = make_route_record route;
          m1 = (if path_map m (rr_path record) = None
                then m\<lparr>path_list := path_list m @ [rr_path record],
                       path_map := (path_map m)(rr_path record \<mapsto> record)\<rparr>
                else m)
      in case name route of
           None \<Rightarrow> m1
         | Some n \<Rightarrow>
             if n \<noteq> [] \<and> name_map m1 n = None
             then m1\<lparr>name_map := (name_map m1)(n \<mapsto> record)\<rparr> else m1)"

text \<open>
  The loop after \<^verbatim>\<open>routes.forEach(...)\<close>:
  \<^verbatim>\<open>for (let i = 0, l = pathList.length; i < l; i++)\<close>
  \<^verbatim>\<open>{ if (pathList[i] === '*') { pathList.push(pathList.splice(i, 1)[0]); l--; i-- } }\<close>.
  A wildcard is spliced out at \<open>i\<close> and pushed to the end; \<open>l--\<close> and \<open>i--\<close>
  (undone by \<open>i++\<close>) leave the index where it was, so \<open>wildcard_loop\<close> keeps
  \<open>i\<close> and lowers \<open>l\<close> there, and steps \<open>i\<close> otherwise. An index past the end of
  the array reads \<^verbatim>\<open>undefined\<close>, which is not \<^verbatim>\<open>'*'\<close>. The loop ends because
  \<open>l - i\<close> drops by one in each round.
\<close>

function wildcard_loop :: "nat \<Rightarrow> nat \<Rightarrow> string list \<Rightarrow> string list" where
  "wildcard_loop i l pl =
     (if i < l then
        if i < length pl \<and> pl ! i = ''*''
        then wildcard_loop i (l - 1) (take i pl @ drop (Suc i) pl @ [pl ! i])
        else wildcard_loop (Suc i) l pl
      else pl)"
  by pat_completeness auto
termination
  by (relation "measure (\<lambda>(i, l, pl). l - i)") auto

declare wildcard_loop.simps [simp del]

definition move_wildcards :: "string list \<Rightarrow> string list" where
  "move_wildcards pl = wildcard_loop 0 (length pl) pl"

text \<open>What the loop promises: the non-wildcard paths in their order, then the wildcards.\<close>

definition wildcards_last :: "string list \<Rightarrow> string list" where
  "wildcards_last pl = filter (\<lambda>p. p \<noteq> ''*'') pl @ filter (\<lambda>p. p = ''*'') pl"

definition create_route_map :: "'c route_config list \<Rightarrow> 'c route_map" where
  "create_route_map routes =
     (let m = foldl add_route_record empty_route_map routes
      in m\<lparr>path_list := move_wildcards (path_list m)\<rparr>)"

section \<open>Matching a path\<close>

text \<open>
  The path branch of \<^verbatim>\<open>match\<close> in create-matcher.js: the paths of the path list
  are tried in order, and the first record whose regular expression matches wins.
  \<^verbatim>\<open>pathMap[path].regex\<close> on a path with no record would raise a TypeError.
\<close>

fun match_route_list ::
  "'c route_map \<Rightarrow> string list \<Rightarrow> string \<Rightarrow> js_error + 'c route_record option" where
  "match_route_list m [] x = Inr None"
| "match_route_list m (p # ps) x =
     (case path_map m p of
        None \<Rightarrow> Inl (Type_error ''Cannot read property regex of undefined'')
      | Some record \<Rightarrow>
          if regex_matches (rr_regex record) x then Inr (Some record)
          else match_route_list m ps x)"

definition match_path :: "'c route_map \<Rightarrow> string \<Rightarrow> js_error + 'c route_record option" where
  "match_path m x = match_route_list m (path_list m) x"

section \<open>The invariant of a route map\<close>

text \<open>
  The path list has no duplicates and holds exactly the keys of the path map; a record
  is stored under its own path, with the regular expression compiled from it; a
  record is stored under a non-empty name that is its own.
\<close>

definition route_map_inv :: "'c route_map \<Rightarrow> bool" where
  "route_map_inv m \<longleftrightarrow>
     distinct (path_list m) \<and> dom (path_map m) = set (path_list m) \<and>
     (\<forall>p r. path_map m p = Some r \<longrightarrow> rr_path r = p \<and> rr_regex r = compile_route_regex p) \<and>
     (\<forall>n r. name_map m n = Some r \<longrightarrow> n \<noteq> [] \<and> rr_name r = Some n)"

definition route_records :: "'c route_map \<Rightarrow> 'c route_record list" where
  "route_records m = map (the \<circ> path_map m) (path_list m)"

definition add_distinct_record :: "'c route_record list \<Rightarrow> 'c route_record \<Rightarrow> 'c route_record list" where
  "add_distinct_record recs r = (if rr_path r \<in> rr_path ` set recs then recs else recs @ [r])"

definition reference_match :: "'c route_config list \<Rightarrow> string \<Rightarrow> 'c route_record option" where
  "reference_match routes x =
     (let records = map make_route_record routes
      in find (\<lambda>r. regex_matches (rr_regex r) x)
           (filter (\<lambda>r. rr_path r \<noteq> ''*'') records @ filter (\<lambda>r. rr_path r = ''*'') records))"

text \<open>
  Well-formed route tables: every path in the modelled fragment, and no two paths
  with the same key (so no route shadows another).
\<close>

definition distinct_route_paths :: "'c route_config list \<Rightarrow> bool" where
  "distinct_route_paths routes \<longleftrightarrow>
     list_all (\<lambda>r. static_route_path (path r)) routes \<and>
     distinct (map (\<lambda>r. route_key (path r)) routes)"

section \<open>Lemmas\<close>

lemma route_map_inv_empty: "route_map_inv empty_route_map"
  by (simp add: route_map_inv_def empty_route_map_def)

lemma make_route_record_simps [simp]:
  "rr_path (make_route_record r) = normalize_path (path r)"
  "rr_regex (make_route_record r) = compile_route_regex (normalize_path (path r))"
  "rr_name (make_route_record r) = name r"
  "rr_component (make_route_record r) = component r"
  by (simp_all add: make_route_record_def Let_def)

lemma add_route_record_path_list:
  "path_list (add_route_record m r) =
     (if path_map m (normalize_path (path r)) = None
      then path_list m @ [normalize_path (path r)] else path_list m)"
  by (cases "name r") (auto simp: add_route_record_def Let_def)

lemma add_route_record_path_map:
  "path_map (add_route_record m r) =
     (if path_map m (normalize_path (path r)) = None
      then (path_map m)(normalize_path (path r) \<mapsto> make_route_record r) else path_map m)"
  by (cases "name r") (auto simp: add_route_record_def Let_def)

lemma add_route_record_name_map:
  "name_map (add_route_record m r) =
     (case name r of
        None \<Rightarrow> name_map m
      | Some n \<Rightarrow> if n \<noteq> [] \<and> name_map m n = None
                  then (name_map m)(n \<mapsto> make_route_record r) else name_map m)"
  by (cases "name r") (auto simp: add_route_record_def Let_def)

lemmas add_route_record_fields =
  add_route_record_path_list add_route_record_path_map add_route_record_name_map

lemma add_route_record_inv:
  assumes "route_map_inv m"
  shows "route_map_inv (add_route_record m r)"
proof -
  let ?p = "normalize_path (path r)"
  have paths: "distinct (path_list (add_route_record m r)) \<and>
      dom (path_map (add_route_record m r)) = set (path_list (add_route_record m r))"
    using assms by (auto simp: route_map_inv_def add_route_record_fields)
  have recs: "\<forall>p q. path_map (add_route_record m r) p = Some q \<longrightarrow>
      rr_path q = p \<and> rr_regex q = compile_route_regex p"
    using assms by (auto simp: route_map_inv_def add_route_record_path_map split: if_splits)
  have names: "\<forall>n q. name_map (add_route_record m r) n = Some q \<longrightarrow> n \<noteq> [] \<and> rr_name q = Some n"
    using assms by (auto simp: route_map_inv_def add_route_record_name_map split: option.splits if_splits)
  from paths recs names show ?thesis by (simp add: route_map_inv_def)
qed

lemma foldl_add_route_record_inv:
  "route_map_inv m \<Longrightarrow> route_map_inv (foldl add_route_record m rs)"
  by (induction rs arbitrary: m) (simp_all add: add_route_record_inv)

lemma wildcard_loop_filter:
  assumes "i \<le> l" and "l \<le> length pl" and "set (drop l pl) \<subseteq> {''*''}"
  shows "wildcard_loop i l pl =
    take i pl @ filter (\<lambda>p. p \<noteq> ''*'') (drop i pl) @ filter (\<lambda>p. p = ''*'') (drop i pl)"
  using assms
proof (induction i l pl rule: wildcard_loop.induct)
  case (1 i l pl)
  show ?case
  proof (cases "i < l")
    case False
    then have "wildcard_loop i l pl = pl" by (simp add: wildcard_loop.simps [of i l pl])
    moreover from False "1.prems" have "i = l" by simp
    moreover have "filter (\<lambda>p. p \<noteq> ''*'') (drop l pl) = []"
      using "1.prems"(3) by (intro filter_False) auto
    moreover have "filter (\<lambda>p. p = ''*'') (drop l pl) = drop l pl"
      using "1.prems"(3) by (intro filter_True) auto
    ultimately show ?thesis by simp
  next
    case lt: True
    with "1.prems"(2) have i: "i < length pl" by simp
    show ?thesis
    proof (cases "pl ! i = ''*''")
      case True
      let ?pl = "take i pl @ drop (Suc i) pl @ [pl ! i]"
      have d: "drop i pl = pl ! i # drop (Suc i) pl" using i by (simp add: Cons_nth_drop_Suc)
      have "drop (l - 1) ?pl = drop l pl @ [pl ! i]" using lt i "1.prems" by simp
      then have "set (drop (l - 1) ?pl) \<subseteq> {''*''}" using True "1.prems"(3) by auto
      then have "wildcard_loop i (l - 1) ?pl =
          take i ?pl @ filter (\<lambda>p. p \<noteq> ''*'') (drop i ?pl) @ filter (\<lambda>p. p = ''*'') (drop i ?pl)"
        using "1.IH"(1) lt i True "1.prems" by simp
      then show ?thesis
        using lt i True by (simp add: wildcard_loop.simps [of i l pl] d filter_eq_snoc)
    next
      case False
      have d: "drop i pl = pl ! i # drop (Suc i) pl" using i by (simp add: Cons_nth_drop_Suc)
      have "wildcard_loop (Suc i) l pl =
          take (Suc i) pl @ filter (\<lambda>p. p \<noteq> ''*'') (drop (Suc i) pl) @ filter (\<lambda>p. p = ''*'') (drop (Suc i) pl)"
        using "1.IH"(2) lt False "1.prems" by simp
      then show ?thesis
        using lt i False by (simp add: wildcard_loop.simps [of i l pl] d take_Suc_conv_app_nth)
    qed
  qed
qed

theorem move_wildcards_wildcards_last: "move_wildcards pl = wildcards_last pl"
  using wildcard_loop_filter [of 0 "length pl" pl] by (simp add: move_wildcards_def wildcards_last_def)

lemma move_wildcards_set [simp]: "set (move_wildcards pl) = set pl"
  by (auto simp: move_wildcards_wildcards_last wildcards_last_def)

lemma move_wildcards_distinct [simp]: "distinct (move_wildcards pl) = distinct pl"
  by (induction pl) (auto simp: move_wildcards_wildcards_last wildcards_last_def)

lemma create_route_map_inv: "route_map_inv (create_route_map rs)"
proof -
  have "route_map_inv (foldl add_route_record empty_route_map rs)"
    by (rule foldl_add_route_record_inv [OF route_map_inv_empty])
  then show ?thesis by (simp add: create_route_map_def Let_def route_map_inv_def)
qed

lemma match_route_list_find:
  "set ps \<subseteq> dom (path_map m) \<Longrightarrow>
   match_route_list m ps x = Inr (find (\<lambda>rec. regex_matches (rr_regex rec) x) (map (the \<circ> path_map m) ps))"
  by (induction ps) auto


lemma route_records_paths:
  assumes "route_map_inv m"
  shows "rr_path ` set (route_records m) = set (path_list m)"
proof -
  have "\<And>p. p \<in> set (path_list m) \<Longrightarrow> rr_path (the (path_map m p)) = p"
    using assms by (force simp: route_map_inv_def)
  then show ?thesis by (force simp: route_records_def)
qed

lemma route_records_add:
  assumes inv: "route_map_inv m"
  shows "route_records (add_route_record m r) = add_distinct_record (route_records m) (make_route_record r)"
proof (cases "path_map m (normalize_path (path r)) = None")
  case True
  then have "normalize_path (path r) \<notin> set (path_list m)"
    using inv by (auto simp: route_map_inv_def)
  moreover have "map (the \<circ> (path_map m)(normalize_path (path r) \<mapsto> make_route_record r)) (path_list m)
      = route_records m"
    using calculation by (auto simp: route_records_def intro: map_cong)
  ultimately show ?thesis using True route_records_paths [OF inv]
    by (simp add: add_distinct_record_def add_route_record_fields route_records_def [of "add_route_record m r"])
next
  case False
  then have "normalize_path (path r) \<in> set (path_list m)"
    using inv by (auto simp: route_map_inv_def)
  then have "add_distinct_record (route_records m) (make_route_record r) = route_records m"
    using route_records_paths [OF inv] by (simp add: add_distinct_record_def)
  moreover have "route_records (add_route_record m r) = route_records m"
    using False by (auto simp: route_records_def add_route_record_fields)
  ultimately show ?thesis by simp
qed

lemma route_records_foldl:
  "route_map_inv m \<Longrightarrow>
   route_records (foldl add_route_record m rs) =
   foldl add_distinct_record (route_records m) (map make_route_record rs)"
  by (induction rs arbitrary: m) (simp_all add: route_records_add add_route_record_inv)

lemma find_foldl_add_distinct_record:
  assumes "\<And>a b. rr_path a = rr_path b \<Longrightarrow> P a = P b"
  shows "find P (foldl add_distinct_record acc recs) = find P (acc @ recs)"
proof (induction recs arbitrary: acc)
  case Nil
  then show ?case by simp
next
  case (Cons r recs)
  show ?case
  proof (cases "rr_path r \<in> rr_path ` set acc")
    case True
    then obtain a where a: "a \<in> set acc" "rr_path a = rr_path r" by auto
    have "find P (acc @ recs) = find P (acc @ r # recs)"
    proof (cases "find P acc")
      case None
      with a have "\<not> P r" using assms [of a r] by (auto simp: find_None_iff)
      with None show ?thesis by (simp add: find_append)
    next
      case (Some z)
      then show ?thesis by (simp add: find_append)
    qed
    with True Cons.IH [of acc] show ?thesis by (simp add: add_distinct_record_def)
  next
    case False
    with Cons.IH [of "acc @ [r]"] show ?thesis by (simp add: add_distinct_record_def)
  qed
qed

lemma map_filter_keyed:
  "(\<And>p. p \<in> set ps \<Longrightarrow> rr_path (f p) = p) \<Longrightarrow>
   map f (filter Q ps) = filter (Q \<circ> rr_path) (map f ps)"
  by (induction ps) auto

lemma route_records_filter:
  assumes "route_map_inv m"
  shows "map (the \<circ> path_map m) (filter Q (path_list m)) = filter (Q \<circ> rr_path) (route_records m)"
proof -
  have "\<And>p. p \<in> set (path_list m) \<Longrightarrow> rr_path ((the \<circ> path_map m) p) = p"
    using assms by (force simp: route_map_inv_def)
  then show ?thesis
    unfolding route_records_def by (rule map_filter_keyed)
qed


lemma route_records_regex:
  assumes "route_map_inv m" and "r \<in> set (route_records m)"
  shows "rr_regex r = compile_route_regex (rr_path r)"
proof -
  from assms(2) obtain p where p: "p \<in> set (path_list m)" and r: "r = the (path_map m p)"
    by (auto simp: route_records_def)
  from p assms(1) have "p \<in> dom (path_map m)"
    by (simp add: route_map_inv_def)
  then obtain q where "path_map m p = Some q"
    by auto
  with r assms(1) show ?thesis by (simp add: route_map_inv_def)
qed

lemma find_keyed_filter_dedup:
  assumes "\<And>a b. rr_path a = rr_path b \<Longrightarrow> P a = P b"
    and "\<And>a b. rr_path a = rr_path b \<Longrightarrow> Q a = Q b"
  shows "find P (filter Q (foldl add_distinct_record [] recs)) = find P (filter Q recs)"
proof -
  have "find (\<lambda>r. Q r \<and> P r) (foldl add_distinct_record [] recs) = find (\<lambda>r. Q r \<and> P r) ([] @ recs)"
    by (rule find_foldl_add_distinct_record) (use assms in blast)
  then show ?thesis by (simp add: find_filter)
qed

theorem match_path_reference:
  "match_path (create_route_map routes) x = Inr (reference_match routes x)"
proof -
  let ?m = "foldl add_route_record empty_route_map routes"
  let ?recs = "map make_route_record routes"
  let ?R = "route_records ?m"
  let ?P = "\<lambda>r. regex_matches (compile_route_regex (rr_path r)) x"
  let ?W = "\<lambda>r. rr_path r = ''*''"
  let ?N = "\<lambda>r. rr_path r \<noteq> ''*''"
  have inv: "route_map_inv ?m"
    by (rule foldl_add_route_record_inv [OF route_map_inv_empty])
  have R: "?R = foldl add_distinct_record [] ?recs"
    using route_records_foldl [OF route_map_inv_empty, of routes]
    by (simp add: route_records_def empty_route_map_def)
  have m': "create_route_map routes = ?m\<lparr>path_list := move_wildcards (path_list ?m)\<rparr>"
    by (simp add: create_route_map_def Let_def)
  have dom: "set (path_list (create_route_map routes)) \<subseteq> dom (path_map (create_route_map routes))"
    using inv by (simp add: m' route_map_inv_def)
  have "match_path (create_route_map routes) x =
      Inr (find (\<lambda>r. regex_matches (rr_regex r) x) (map (the \<circ> path_map ?m) (move_wildcards (path_list ?m))))"
    using match_route_list_find [OF dom] by (simp add: match_path_def m')
  also have "map (the \<circ> path_map ?m) (move_wildcards (path_list ?m)) = filter ?N ?R @ filter ?W ?R"
    using route_records_filter [OF inv] by (simp add: move_wildcards_wildcards_last wildcards_last_def comp_def)
  also have "find (\<lambda>r. regex_matches (rr_regex r) x) (filter ?N ?R @ filter ?W ?R) =
      find ?P (filter ?N ?R @ filter ?W ?R)"
    by (rule find_cong) (auto simp: route_records_regex [OF inv])
  also have "\<dots> = find ?P (filter ?N ?recs @ filter ?W ?recs)"
  proof -
    have N: "find ?P (filter ?N ?R) = find ?P (filter ?N ?recs)"
      unfolding R by (rule find_keyed_filter_dedup) auto
    have W: "find ?P (filter ?W ?R) = find ?P (filter ?W ?recs)"
      unfolding R by (rule find_keyed_filter_dedup) auto
    show ?thesis unfolding find_append N W ..
  qed
  also have "\<dots> = reference_match routes x"
    unfolding reference_match_def Let_def by (rule find_cong) auto
  finally show ?thesis .
qed

lemma static_route_path_not_wildcard:
  "static_route_path p \<Longrightarrow> normalize_path p \<noteq> ''*''"
  using static_route_path_compile [of p] by (auto simp: compile_route_regex_def)

theorem match_declared_path:
  assumes wf: "distinct_route_paths routes" and r: "r \<in> set routes"
  shows "match_path (create_route_map routes) (path r) = Inr (Some (make_route_record r))"
proof -
  let ?P = "\<lambda>q. regex_matches (rr_regex q) (path r)"
  let ?recs = "map make_route_record routes"
  have static: "\<And>q. q \<in> set routes \<Longrightarrow> static_route_path (path q)"
    using wf by (simp add: distinct_route_paths_def list_all_iff)
  have inj: "inj_on (\<lambda>q. route_key (path q)) (set routes)"
    using wf by (simp add: distinct_route_paths_def distinct_map)
  have N: "find ?P (filter (\<lambda>q. rr_path q \<noteq> ''*'') ?recs) = Some (make_route_record r)"
  proof (rule find_unique)
    show "make_route_record r \<in> set (filter (\<lambda>q. rr_path q \<noteq> ''*'') ?recs)"
      using r static [OF r] by (simp add: static_route_path_not_wildcard)
    show "?P (make_route_record r)"
      using static [OF r] by (simp add: static_route_path_self_match)
  next
    fix y assume "y \<in> set (filter (\<lambda>q. rr_path q \<noteq> ''*'') ?recs)" and m: "?P y"
    then obtain q where q: "q \<in> set routes" and y: "y = make_route_record q" by auto
    from m y have "regex_matches (compile_route_regex (normalize_path (path q))) (path r)" by simp
    then have "route_key (path q) = route_key (path r)"
      by (rule static_route_path_match_key [OF static [OF r] static [OF q]])
    with inj q r have "q = r" by (auto dest: inj_onD)
    with y show "y = make_route_record r" by simp
  qed
  show ?thesis
    by (simp add: match_path_reference reference_match_def find_append N)
qed

lemma name_map_foldl:
  "name_map (foldl add_route_record m routes) n =
     (case name_map m n of
        Some q \<Rightarrow> Some q
      | None \<Rightarrow> if n = [] then None else find (\<lambda>q. rr_name q = Some n) (map make_route_record routes))"
  by (induction routes arbitrary: m) (auto simp: add_route_record_name_map split: option.splits)

theorem name_map_first_declared:
  "name_map (create_route_map routes) n =
     (if n = [] then None else find (\<lambda>q. rr_name q = Some n) (map make_route_record routes))"
  by (simp add: create_route_map_def Let_def name_map_foldl empty_route_map_def)

lemma distinct_route_paths_match_unique:
  assumes wf: "distinct_route_paths rs" and q: "q \<in> set rs" and r: "r \<in> set rs"
    and mq: "regex_matches (rr_regex (make_route_record q)) x"
    and mr: "regex_matches (rr_regex (make_route_record r)) x"
  shows "q = r"
proof -
  have "static_route_path (path q)" "static_route_path (path r)"
    using wf q r by (simp_all add: distinct_route_paths_def list_all_iff)
  moreover have "regex_matches (compile_route_regex (normalize_path (path q))) x"
    "regex_matches (compile_route_regex (normalize_path (path r))) x"
    using mq mr by simp_all
  ultimately have "route_key (path q) = route_key (path r)"
    by (rule static_routes_match_same_key)
  moreover have "inj_on (\<lambda>q. route_key (path q)) (set rs)"
    using wf by (simp add: distinct_route_paths_def distinct_map)
  ultimately show "q = r" using q r by (auto dest: inj_onD)
qed

lemma reference_match_static:
  assumes "list_all (\<lambda>r. static_route_path (path r)) rs"
  shows "reference_match rs x =
    find (\<lambda>q. regex_matches (rr_regex q) x) (map make_route_record rs)"
proof -
  have "\<forall>r \<in> set rs. normalize_path (path r) \<noteq> ''*''"
    using assms by (auto simp: list_all_iff static_route_path_not_wildcard)
  then have "filter (\<lambda>q. rr_path q \<noteq> ''*'') (map make_route_record rs) = map make_route_record rs"
    "filter (\<lambda>q. rr_path q = ''*'') (map make_route_record rs) = []"
    by (auto intro: filter_True filter_False)
  then show ?thesis by (simp add: reference_match_def)
qed

theorem reference_match_same_routes:
  assumes wf: "distinct_route_paths rs" and set: "set rs' = set rs"
  shows "reference_match rs' x = reference_match rs x"
proof -
  have static: "list_all (\<lambda>r. static_route_path (path r)) rs"
    using wf by (simp add: distinct_route_paths_def)
  then have static': "list_all (\<lambda>r. static_route_path (path r)) rs'"
    using set by (simp add: list_all_iff)
  have "find (\<lambda>q. regex_matches (rr_regex q) x) (map make_route_record rs') =
        find (\<lambda>q. regex_matches (rr_regex q) x) (map make_route_record rs)"
  proof (rule find_same_set)
    show "set (map make_route_record rs') = set (map make_route_record rs)"
      using set by simp
  next
    fix a b assume "a \<in> set (map make_route_record rs')" "b \<in> set (map make_route_record rs')"
      and ma: "regex_matches (rr_regex a) x" and mb: "regex_matches (rr_regex b) x"
    then obtain q r where q: "q \<in> set rs" "a = make_route_record q"
      and r: "r \<in> set rs" "b = make_route_record r" using set by auto
    have "q = r" using distinct_route_paths_match_unique [OF wf q(1) r(1)] ma mb q r by simp
    with q r show "a = b" by simp
  qed
  then show ?thesis by (simp add: reference_match_static [OF static] reference_match_static [OF static'])
qed

theorem name_map_same_routes:
  assumes names: "distinct (map name rs)" and set: "set rs' = set rs"
  shows "name_map (create_route_map rs') n = name_map (create_route_map rs) n"
proof -
  have "find (\<lambda>q. rr_name q = Some n) (map make_route_record rs') =
        find (\<lambda>q. rr_name q = Some n) (map make_route_record rs)"
  proof (rule find_same_set)
    show "set (map make_route_record rs') = set (map make_route_record rs)"
      using set by simp
  next
    have inj: "inj_on name (set rs)" using names by (simp add: distinct_map)
    fix a b assume "a \<in> set (map make_route_record rs')" "b \<in> set (map make_route_record rs')"
      and na: "rr_name a = Some n" and nb: "rr_name b = Some n"
    then obtain q r where q: "q \<in> set rs" "a = make_route_record q"
      and r: "r \<in> set rs" "b = make_route_record r" using set by auto
    have eq: "name q = name r" using na nb q r by simp
    have "q = r" by (rule inj_onD [OF inj eq q(1) r(1)])
    with q r show "a = b" by simp
  qed
  then show ?thesis by (simp add: name_map_first_declared)
qed

lemma foldl_add_distinct_record:
  "distinct (map rr_path (acc @ xs)) \<Longrightarrow> foldl add_distinct_record acc xs = acc @ xs"
proof (induction xs arbitrary: acc)
  case Nil
  then show ?case by simp
next
  case (Cons x xs)
  then have "rr_path x \<notin> rr_path ` set acc" by auto
  then have "add_distinct_record acc x = acc @ [x]" by (simp add: add_distinct_record_def)
  with Cons.IH [of "acc @ [x]"] Cons.prems show ?case by simp
qed

lemma wildcards_last_no_wildcard: "''*'' \<notin> set pl \<Longrightarrow> wildcards_last pl = pl"
  by (induction pl) (auto simp: wildcards_last_def)

lemma distinct_route_paths_normalized:
  "distinct_route_paths rs \<Longrightarrow> distinct (map (\<lambda>r. normalize_path (path r)) rs)"
  by (induction rs) (auto simp: distinct_route_paths_def route_key_def)

theorem route_records_create_route_map:
  assumes wf: "distinct_route_paths rs"
  shows "route_records (create_route_map rs) = map make_route_record rs"
proof -
  let ?m = "foldl add_route_record empty_route_map rs"
  have inv: "route_map_inv ?m" by (rule foldl_add_route_record_inv [OF route_map_inv_empty])
  have recs: "route_records ?m = map make_route_record rs"
    using route_records_foldl [OF route_map_inv_empty, of rs] distinct_route_paths_normalized [OF wf]
    by (simp add: foldl_add_distinct_record route_records_def empty_route_map_def comp_def)
  have "''*'' \<notin> set (path_list ?m)"
  proof
    assume "''*'' \<in> set (path_list ?m)"
    then have "''*'' \<in> rr_path ` set (route_records ?m)" using route_records_paths [OF inv] by simp
    then obtain r where "r \<in> set rs" "normalize_path (path r) = ''*''" using recs by auto
    moreover have "static_route_path (path r)" using wf calculation(1)
      by (simp add: distinct_route_paths_def list_all_iff)
    ultimately show False using static_route_path_not_wildcard by blast
  qed
  then show ?thesis
    using recs by (simp add: create_route_map_def Let_def route_records_def move_wildcards_wildcards_last
        wildcards_last_no_wildcard)
qed

lemma find_name_map_of:
  "list_all (\<lambda>r. name r \<noteq> None) rs \<Longrightarrow>
   find (\<lambda>q. rr_name q = Some n) (map make_route_record rs) =
   map_of (map (\<lambda>r. (the (name r), make_route_record r)) rs) n"
  by (induction rs) auto

theorem name_map_create_route_map:
  assumes "list_all (\<lambda>r. name r \<noteq> None \<and> name r \<noteq> Some []) rs"
  shows "name_map (create_route_map rs) n = map_of (map (\<lambda>r. (the (name r), make_route_record r)) rs) n"
proof (cases "n = []")
  case True
  have "map_of (map (\<lambda>r. (the (name r), make_route_record r)) rs) [] = None"
    using assms by (induction rs) auto
  with True show ?thesis by (simp add: name_map_first_declared)
next
  case False
  have "list_all (\<lambda>r. name r \<noteq> None) rs" using assms by (simp add: list_all_iff)
  with False show ?thesis by (simp add: name_map_first_declared find_name_map_of)
qed

end
