(* ===== verification/Router.thy ===== *)
theory Router
  imports Route_Map
begin

text \<open>
  The router object the source constructs with \<^verbatim>\<open>new Router({routes: [...]})\<close>:
  vue-router's constructor (index.js: the matcher built from \<^verbatim>\<open>options.routes\<close>,
  the history mode chosen from \<^verbatim>\<open>options.mode\<close>, the browser's capabilities and
  \<^verbatim>\<open>options.fallback\<close>), and \<^verbatim>\<open>router.match(raw, current)\<close>, which normalises
  a raw location against the current route (util/location.js) and resolves it by name
  or by path (create-matcher.js). A raw location is a string or an object with a
  \<^verbatim>\<open>name\<close>; params, explicit query objects and \<^verbatim>\<open>append\<close> are not modelled
  (the source passes none), and the query is kept as the raw string \<^verbatim>\<open>parsePath\<close>
  returns.
\<close>

section \<open>Locations\<close>

datatype raw_location = Raw_path string | Raw_name string

record location =
  loc_name :: "string option"
  loc_path :: string
  loc_query :: string
  loc_hash :: string

text \<open>
  The string branch of \<^verbatim>\<open>normalizeLocation\<close>: the parsed path is resolved against
  \<^verbatim>\<open>(current && current.path) || '/'\<close> when it is non-empty, otherwise that base
  path is used; the hash parsed from the string already starts with \<^verbatim>\<open>#\<close>.
\<close>

definition normalize_path_location :: "string \<Rightarrow> string \<Rightarrow> location" where
  "normalize_path_location raw current =
     (let parsed = parse_path raw;
          base_path = (if current = [] then ''/'' else current);
          p = (if pp_path parsed \<noteq> [] then resolve_path (pp_path parsed) base_path False else base_path)
      in \<lparr>loc_name = None, loc_path = p, loc_query = pp_query parsed, loc_hash = pp_hash parsed\<rparr>)"

text \<open>
  \<^verbatim>\<open>normalizeLocation(raw, current)\<close>: a string is \<^verbatim>\<open>{path: raw}\<close>; an object with
  a truthy name is returned as it is; an object whose name is the empty string falls
  through to the path branch with \<^verbatim>\<open>next.path || ''\<close>.
\<close>

definition normalize_location :: "raw_location \<Rightarrow> string \<Rightarrow> location" where
  "normalize_location raw current =
     (case raw of
        Raw_path s \<Rightarrow> normalize_path_location s current
      | Raw_name n \<Rightarrow>
          if n \<noteq> [] then \<lparr>loc_name = Some n, loc_path = [], loc_query = [], loc_hash = []\<rparr>
          else normalize_path_location [] current)"

text \<open>
  \<^verbatim>\<open>match(raw, currentRoute)\<close>: a truthy name is looked up in the name map (a
  missing name gives the empty route); otherwise a truthy path is matched against the
  path list; otherwise there is no match. The result is the matched record, i.e. the
  last element of \<^verbatim>\<open>route.matched\<close> (a top-level route has no parent).
\<close>

definition route_match ::
  "'c route_map \<Rightarrow> raw_location \<Rightarrow> string \<Rightarrow> js_error + 'c route_record option" where
  "route_match m raw current =
     (let location = normalize_location raw current
      in case loc_name location of
           Some n \<Rightarrow>
             if n \<noteq> [] then Inr (name_map m n)
             else if loc_path location \<noteq> [] then match_path m (loc_path location) else Inr None
         | None \<Rightarrow>
             if loc_path location \<noteq> [] then match_path m (loc_path location) else Inr None)"

section \<open>The router\<close>

datatype router_mode = Hash | History | Abstract

text \<open>What the constructor reads from the environment: \<^verbatim>\<open>inBrowser\<close> and \<^verbatim>\<open>supportsPushState\<close>.\<close>

record router_env =
  in_browser :: bool
  supports_push_state :: bool

record 'c router_options =
  routes :: "'c route_config list"
  mode :: "router_mode option"
  fallback :: "bool option"

record 'c vue_router =
  matcher :: "'c route_map"
  router_mode :: router_mode
  router_fallback :: bool

text \<open>
  The constructor: \<^verbatim>\<open>this.matcher = createMatcher(options.routes || [], this)\<close>;
  \<^verbatim>\<open>mode = options.mode || 'hash'\<close>; \<^verbatim>\<open>this.fallback\<close> when history mode is asked
  for, the browser lacks \<^verbatim>\<open>pushState\<close> and \<^verbatim>\<open>options.fallback !== false\<close>, and
  then the mode falls back to hash; outside a browser the mode is abstract.
\<close>

definition new_router :: "router_env \<Rightarrow> 'c router_options \<Rightarrow> 'c vue_router" where
  "new_router env options =
     (let mode0 = (case mode options of None \<Rightarrow> Hash | Some md \<Rightarrow> md);
          fb = (mode0 = History \<and> \<not> supports_push_state env \<and> fallback options \<noteq> Some False);
          mode1 = (if fb then Hash else mode0);
          mode2 = (if \<not> in_browser env then Abstract else mode1)
      in \<lparr>matcher = create_route_map (routes options), router_mode = mode2, router_fallback = fb\<rparr>)"

text \<open>\<^verbatim>\<open>router.match(raw, current)\<close> delegates to the matcher.\<close>

definition router_match ::
  "'c vue_router \<Rightarrow> raw_location \<Rightarrow> string \<Rightarrow> js_error + 'c route_record option" where
  "router_match r raw current = route_match (matcher r) raw current"

text \<open>The view \<^verbatim>\<open><router-view>\<close> renders for a match: the record's default component.\<close>

definition resolved_view :: "'c vue_router \<Rightarrow> raw_location \<Rightarrow> string \<Rightarrow> js_error + 'c option" where
  "resolved_view r raw current = map_sum id (map_option rr_component) (router_match r raw current)"

section \<open>Lemmas\<close>

lemma normalize_location_absolute:
  "plain_absolute_path s \<Longrightarrow> normalize_location (Raw_path s) current =
     \<lparr>loc_name = None, loc_path = s, loc_query = [], loc_hash = []\<rparr>"
  by (auto simp: plain_absolute_path_def normalize_location_def normalize_path_location_def
      parse_path_plain resolve_path_def Let_def)

lemma route_match_absolute:
  "plain_absolute_path s \<Longrightarrow> route_match m (Raw_path s) current = match_path m s"
  by (auto simp: route_match_def normalize_location_absolute plain_absolute_path_def)

lemma route_match_name:
  "n \<noteq> [] \<Longrightarrow> route_match m (Raw_name n) current = Inr (name_map m n)"
  by (simp add: route_match_def normalize_location_def)

lemma match_path_total:
  "route_map_inv m \<Longrightarrow> \<exists>res. match_path m x = Inr res"
  by (auto simp: match_path_def route_map_inv_def match_route_list_find)

lemma route_match_total:
  "route_map_inv m \<Longrightarrow> \<exists>res. route_match m raw current = Inr res"
  by (auto simp: route_match_def Let_def match_path_total split: option.split)

theorem router_match_never_fails:
  "router_match (new_router env options) raw current \<noteq> Inl e"
proof -
  have "route_map_inv (matcher (new_router env options))"
    by (simp add: new_router_def Let_def create_route_map_inv)
  then obtain res where "router_match (new_router env options) raw current = Inr res"
    unfolding router_match_def using route_match_total by blast
  then show ?thesis by simp
qed

lemma normalize_location_query_hash:
  assumes "plain_absolute_path p" and "CHR ''#'' \<notin> set q"
  shows "normalize_location (Raw_path (p @ ''?'' @ q @ ''#'' @ h)) current =
    \<lparr>loc_name = None, loc_path = p, loc_query = q, loc_hash = ''#'' @ h\<rparr>"
proof -
  have "parse_path (p @ ''?'' @ q @ ''#'' @ h) = \<lparr>pp_path = p, pp_query = q, pp_hash = ''#'' @ h\<rparr>"
    using assms by (intro parse_path_roundtrip) (simp_all add: plain_absolute_path_def)
  with assms(1) show ?thesis
    by (auto simp: normalize_location_def normalize_path_location_def resolve_path_def
        plain_absolute_path_def)
qed

lemma route_match_query_hash:
  assumes "plain_absolute_path p" and "CHR ''#'' \<notin> set q"
  shows "route_match m (Raw_path (p @ ''?'' @ q @ ''#'' @ h)) current = route_match m (Raw_path p) current"
proof -
  have "p \<noteq> []" using assms(1) by (auto simp: plain_absolute_path_def)
  with normalize_location_query_hash [OF assms] normalize_location_absolute [OF assms(1)]
  show ?thesis by (simp only: route_match_def Let_def) simp
qed

lemma matcher_new_router: "matcher (new_router env options) = create_route_map (routes options)"
  by (simp add: new_router_def Let_def)

lemma normalize_location_parents:
  assumes "plain_relative_path x" and "CHR ''/'' \<notin> set w"
  shows "normalize_location (Raw_path (concat (replicate k ''../'') @ x)) (CHR ''/'' # w) =
    \<lparr>loc_name = None, loc_path = CHR ''/'' # x, loc_query = [], loc_hash = []\<rparr>"
proof -
  have "CHR ''#'' \<notin> set x" "CHR ''?'' \<notin> set x" "x \<noteq> []"
    using assms(1) by (simp_all add: plain_relative_path_def)
  moreover have "CHR ''#'' \<notin> set (concat (replicate k ''../''))" "CHR ''?'' \<notin> set (concat (replicate k ''../''))"
    by auto
  ultimately show ?thesis
    by (simp add: normalize_location_def normalize_path_location_def parse_path_plain
        resolve_path_parents [OF assms])
qed

lemma route_match_parents:
  assumes "plain_relative_path x" and "CHR ''/'' \<notin> set w"
  shows "route_match m (Raw_path (concat (replicate k ''../'') @ x)) (CHR ''/'' # w) = match_path m (CHR ''/'' # x)"
  using assms
  by (simp add: route_match_def Let_def normalize_location_parents)

lemma route_match_same_maps:
  assumes "\<And>n. name_map m' n = name_map m n" and "\<And>x. match_path m' x = match_path m x"
  shows "route_match m' raw current = route_match m raw current"
  using assms by (simp add: route_match_def Let_def split: option.split)

theorem route_match_same_routes:
  assumes "distinct_route_paths rs" and "distinct (map name rs)" and "set rs' = set rs"
  shows "route_match (create_route_map rs') raw current = route_match (create_route_map rs) raw current"
proof (rule route_match_same_maps)
  fix n
  show "name_map (create_route_map rs') n = name_map (create_route_map rs) n"
    by (rule name_map_same_routes [OF assms(2,3)])
next
  fix x
  show "match_path (create_route_map rs') x = match_path (create_route_map rs) x"
    by (simp only: match_path_reference reference_match_same_routes [OF assms(1,3)])
qed
end
