(* ===== verification/Vue_Global.thy ===== *)
theory Vue_Global
  imports Prelude
begin

text \<open>
  The global API of Vue 2 that line 7 of \<^verbatim>\<open>src/vue-frontend/src/router/index.js\<close>
  (\<^verbatim>\<open>Vue.use(Router)\<close>) drives: the list of installed plugins
  (\<^verbatim>\<open>Vue._installedPlugins\<close>), the global mixins, the global component
  registry (\<^verbatim>\<open>Vue.options.components\<close>) and the properties defined on
  \<^verbatim>\<open>Vue.prototype\<close>. The record is extensible, so that a plugin's own module
  state (vue-router's \<^verbatim>\<open>install.installed\<close>, in Router_Install) extends it and
  \<open>vue_use\<close> is stated once for every extension and every plugin type \<open>'p\<close>.
\<close>

record 'p vue_global =
  installed_plugins :: "'p list"
  global_mixins :: "string list"
  prototype_props :: "string list"
  global_components :: "string list"

text \<open>
  Keys of a JavaScript object in insertion order: assigning an existing key keeps its
  position.
\<close>

definition add_key :: "string \<Rightarrow> string list \<Rightarrow> string list" where
  "add_key k ks = (if k \<in> set ks then ks else ks @ [k])"

text \<open>\<^verbatim>\<open>Vue.mixin(mixin)\<close> merges the mixin into \<^verbatim>\<open>Vue.options\<close>; a mixin is named by a string.\<close>

definition vue_mixin :: "string \<Rightarrow> ('p, 'm) vue_global_scheme \<Rightarrow> ('p, 'm) vue_global_scheme" where
  "vue_mixin mixin g = g\<lparr>global_mixins := global_mixins g @ [mixin]\<rparr>"

text \<open>\<^verbatim>\<open>Vue.component(id, definition)\<close> stores the definition under its id.\<close>

definition vue_component :: "string \<Rightarrow> ('p, 'm) vue_global_scheme \<Rightarrow> ('p, 'm) vue_global_scheme" where
  "vue_component cid g = g\<lparr>global_components := add_key cid (global_components g)\<rparr>"

text \<open>
  \<^verbatim>\<open>Object.defineProperty(Vue.prototype, prop, {get})\<close> makes a non-configurable
  property; defining it a second time throws a TypeError and changes nothing.
\<close>

definition define_prototype_property ::
  "string \<Rightarrow> ('p, 'm) vue_global_scheme \<Rightarrow>
   ('p, 'm) vue_global_scheme js_thrown + ('p, 'm) vue_global_scheme" where
  "define_prototype_property prop g =
     (if prop \<in> set (prototype_props g) then Inl (Type_error (''Cannot redefine property: '' @ prop), g)
      else Inr (g\<lparr>prototype_props := prototype_props g @ [prop]\<rparr>))"

text \<open>
  \<^verbatim>\<open>Vue.use(plugin)\<close> (core/global-api/use.js): a plugin already in the list is
  ignored; otherwise its \<^verbatim>\<open>install\<close> runs (an exception propagates, with whatever
  the install changed before it threw, and the plugin is not recorded) and the plugin
  is pushed on the list. The plugin's install function is
  a parameter: this is the interface between Vue and any plugin.
\<close>

definition vue_use ::
  "('p \<Rightarrow> ('p, 'm) vue_global_scheme \<Rightarrow> ('p, 'm) vue_global_scheme js_thrown + ('p, 'm) vue_global_scheme) \<Rightarrow>
   'p \<Rightarrow> ('p, 'm) vue_global_scheme \<Rightarrow> ('p, 'm) vue_global_scheme js_thrown + ('p, 'm) vue_global_scheme" where
  "vue_use install plugin g =
     (if plugin \<in> set (installed_plugins g) then Inr g
      else js_bind (install plugin g)
             (\<lambda>g'. Inr (g'\<lparr>installed_plugins := installed_plugins g' @ [plugin]\<rparr>)))"

text \<open>
  The frame condition a plugin's install satisfies when it does not itself call
  \<^verbatim>\<open>Vue.use\<close>: it leaves the plugin list alone.
\<close>

definition keeps_plugins ::
  "('p \<Rightarrow> ('p, 'm) vue_global_scheme \<Rightarrow> ('p, 'm) vue_global_scheme js_thrown + ('p, 'm) vue_global_scheme) \<Rightarrow> bool" where
  "keeps_plugins install \<longleftrightarrow>
     (\<forall>p g g'. install p g = Inr g' \<longrightarrow> installed_plugins g' = installed_plugins g)"

section \<open>Lemmas\<close>

lemma vue_use_installed:
  "vue_use install plugin g = Inr g' \<Longrightarrow> plugin \<in> set (installed_plugins g')"
  by (auto simp: vue_use_def js_bind_eq_Inr split: if_splits)

lemma vue_use_again: "plugin \<in> set (installed_plugins g) \<Longrightarrow> vue_use install plugin g = Inr g"
  by (simp add: vue_use_def)

theorem vue_use_idempotent:
  "js_bind (vue_use install plugin g) (vue_use install plugin) = vue_use install plugin g"
proof (cases "vue_use install plugin g")
  case (Inl e)
  then show ?thesis by simp
next
  case (Inr g')
  then have "plugin \<in> set (installed_plugins g')" by (rule vue_use_installed)
  with Inr show ?thesis by (simp add: vue_use_again)
qed

theorem vue_use_distinct:
  assumes "keeps_plugins install" and "distinct (installed_plugins g)"
    and "vue_use install plugin g = Inr g'"
  shows "distinct (installed_plugins g')"
  using assms by (auto simp: vue_use_def keeps_plugins_def js_bind_eq_Inr split: if_splits)

end
