(* ===== verification/Router_Install.thy ===== *)
theory Router_Install
  imports Vue_Global
begin

text \<open>
  vue-router's plugin entry point (src/install.js), which \<^verbatim>\<open>Vue.use(Router)\<close> calls.
  Its module keeps the flag \<^verbatim>\<open>install.installed\<close>; the runtime state is Vue's global
  state extended by that flag. With one Vue constructor the guard
  \<^verbatim>\<open>install.installed && _Vue === Vue\<close> is the flag alone. Recording
  \<^verbatim>\<open>_Vue\<close> and the option-merge strategies has no effect the model observes.
\<close>

record 'p router_runtime = "'p vue_global" +
  install_installed :: bool

text \<open>
  \<^verbatim>\<open>install(Vue)\<close>: set the flag, register the \<^verbatim>\<open>beforeCreate\<close>/\<^verbatim>\<open>destroyed\<close>
  mixin, define \<^verbatim>\<open>$router\<close> and \<^verbatim>\<open>$route\<close> on \<^verbatim>\<open>Vue.prototype\<close>, register the
  \<^verbatim>\<open>RouterView\<close> and \<^verbatim>\<open>RouterLink\<close> components, in this order. A
  TypeError of a \<^verbatim>\<open>defineProperty\<close> leaves the flag set and the mixin registered.
\<close>

definition router_install :: "'p router_runtime \<Rightarrow> 'p router_runtime js_thrown + 'p router_runtime" where
  "router_install s =
     (if install_installed s then Inr s
      else
        (let s1 = vue_mixin ''router-lifecycle'' (s\<lparr>install_installed := True\<rparr>)
         in js_bind (define_prototype_property ''$router'' s1) (\<lambda>s2.
            js_bind (define_prototype_property ''$route'' s2) (\<lambda>s3.
            Inr (vue_component ''RouterLink'' (vue_component ''RouterView'' s3))))))"

text \<open>A runtime into which the router has not been installed yet.\<close>

definition router_fresh :: "'p router_runtime \<Rightarrow> bool" where
  "router_fresh s \<longleftrightarrow>
     \<not> install_installed s \<and> ''$router'' \<notin> set (prototype_props s) \<and> ''$route'' \<notin> set (prototype_props s)"

section \<open>Lemmas\<close>

lemma router_install_fresh:
  assumes "router_fresh s"
  shows "router_install s = Inr (s\<lparr>install_installed := True,
      global_mixins := global_mixins s @ [''router-lifecycle''],
      prototype_props := prototype_props s @ [''$router'', ''$route''],
      global_components := add_key ''RouterLink'' (add_key ''RouterView'' (global_components s))\<rparr>)"
  using assms
  by (simp add: router_install_def router_fresh_def vue_mixin_def vue_component_def
      define_prototype_property_def)

lemma router_install_keeps_plugins:
  "router_install s = Inr s' \<Longrightarrow> installed_plugins s' = installed_plugins s"
  by (auto simp: router_install_def vue_mixin_def vue_component_def define_prototype_property_def
      js_bind_eq_Inr Let_def split: if_splits)

lemma router_install_installed:
  "router_install s = Inr s' \<Longrightarrow> install_installed s'"
  by (auto simp: router_install_def vue_mixin_def vue_component_def define_prototype_property_def
      js_bind_eq_Inr Let_def split: if_splits)

end
