(* ===== verification/Router_Config.thy ===== *)
theory Router_Config
  imports Router Router_Install
begin

text \<open>
  The module \<^verbatim>\<open>src/vue-frontend/src/router/index.js\<close> itself: the three view
  components it imports (lines 3-5), the plugin it installs (line 7), the route table
  (lines 10-26) and the router it exports (lines 9-27). Loading the module is one step
  on the runtime state: \<^verbatim>\<open>Vue.use(Router)\<close>, then \<^verbatim>\<open>new Router(...)\<close>.
\<close>

section \<open>The module's data\<close>

text \<open>The components imported from \<^verbatim>\<open>@/components/Home\<close>, \<^verbatim>\<open>Counter\<close> and \<^verbatim>\<open>Show\<close>.\<close>

datatype component = Home | Counter | Show

text \<open>The plugin objects the module passes to \<^verbatim>\<open>Vue.use\<close>: the default export of vue-router.\<close>

datatype plugin = Vue_router

definition plugin_install ::
  "plugin \<Rightarrow> plugin router_runtime \<Rightarrow> plugin router_runtime js_thrown + plugin router_runtime" where
  "plugin_install p s = (case p of Vue_router \<Rightarrow> router_install s)"

definition home_route :: "component route_config" where
  "home_route = \<lparr>path = ''/'', name = Some ''Home'', component = Home\<rparr>"

definition counter_route :: "component route_config" where
  "counter_route = \<lparr>path = ''/Counter'', name = Some ''Counter'', component = Counter\<rparr>"

definition show_route :: "component route_config" where
  "show_route = \<lparr>path = ''/Show'', name = Some ''Show'', component = Show\<rparr>"

definition app_routes :: "component route_config list" where
  "app_routes = [home_route, counter_route, show_route]"

definition app_router_options :: "component router_options" where
  "app_router_options = \<lparr>routes = app_routes, mode = None, fallback = None\<rparr>"

definition app_router :: "router_env \<Rightarrow> component vue_router" where
  "app_router env = new_router env app_router_options"

text \<open>
  Evaluating the module: \<^verbatim>\<open>Vue.use(Router)\<close> on the runtime (line 7), then the
  exported router (lines 9-27). The imports (lines 1-5) only bind names. An exception
  of \<^verbatim>\<open>Vue.use\<close> aborts the module, with the runtime as the throw left it.
\<close>

definition load_router_module ::
  "router_env \<Rightarrow> plugin router_runtime \<Rightarrow>
   plugin router_runtime js_thrown + plugin router_runtime \<times> component vue_router" where
  "load_router_module env s =
     js_bind (vue_use plugin_install Vue_router s) (\<lambda>s'. Inr (s', app_router env))"

section \<open>Runtimes the module is loaded into\<close>

text \<open>
  A runtime into which vue-router has not been installed, and Vue 2's own global state
  before any plugin (its built-in components, and the properties \<^verbatim>\<open>$data\<close>,
  \<^verbatim>\<open>$props\<close>, \<^verbatim>\<open>$isServer\<close>, \<^verbatim>\<open>$ssrContext\<close> it defines with
  \<^verbatim>\<open>Object.defineProperty\<close>), together with a browser environment: the concrete
  inputs of the witnesses below.
\<close>

definition plugin_fresh :: "plugin router_runtime \<Rightarrow> bool" where
  "plugin_fresh s \<longleftrightarrow> router_fresh s \<and> Vue_router \<notin> set (installed_plugins s)"

definition vue_initial_runtime :: "plugin router_runtime" where
  "vue_initial_runtime =
     \<lparr>installed_plugins = [], global_mixins = [],
      prototype_props = [''$data'', ''$props'', ''$isServer'', ''$ssrContext''],
      global_components = [''KeepAlive'', ''Transition'', ''TransitionGroup''],
      install_installed = False\<rparr>"

definition browser_env :: router_env where
  "browser_env = \<lparr>in_browser = True, supports_push_state = True\<rparr>"

section \<open>Lemmas about the route table\<close>

lemmas app_defs = app_routes_def home_route_def counter_route_def show_route_def

lemma app_paths_plain: "list_all (\<lambda>r. plain_absolute_path (path r)) app_routes"
  by (simp add: app_defs plain_absolute_path_def)

lemma app_routes_distinct_route_paths: "distinct_route_paths app_routes"
  by (simp add: app_defs distinct_route_paths_def static_route_path_def route_key_def
      normalize_path_def token_chars_def canonicalize_def)

lemma matcher_app_router: "matcher (app_router env) = create_route_map app_routes"
  by (simp add: app_router_def matcher_new_router app_router_options_def)

lemma app_router_match_absolute:
  "plain_absolute_path x \<Longrightarrow>
   router_match (app_router env) (Raw_path x) current = Inr (reference_match app_routes x)"
  by (simp add: router_match_def route_match_absolute matcher_app_router match_path_reference)

lemmas app_eval = reference_match_def app_defs normalize_path_def compile_route_regex_def
  token_chars_def canonicalize_def

lemma app_route_names_nonempty: "r \<in> set app_routes \<Longrightarrow> name r = Some n \<Longrightarrow> n \<noteq> []"
  by (auto simp: app_defs)

lemma app_route_paths_one_segment:
  "r \<in> set app_routes \<Longrightarrow> \<exists>w. path r = CHR ''/'' # w \<and> CHR ''/'' \<notin> set w"
  by (auto simp: app_defs)

lemma app_route_names_distinct: "distinct (map name app_routes)"
  by (simp add: app_defs)

lemma app_route_lookup:
  assumes "r \<in> set app_routes" and "name r = Some n"
  shows "name_map (create_route_map app_routes) n = Some (make_route_record r) \<and>
    reference_match app_routes (path r) = Some (make_route_record r) \<and>
    (if normalize_path (path r) = [] then ''/'' else normalize_path (path r)) = path r"
proof -
  from assms(1) consider "r = home_route" | "r = counter_route" | "r = show_route"
    by (auto simp: app_routes_def)
  then show ?thesis
  proof cases
    case 1
    with assms(2) have "n = ''Home''" by (simp add: home_route_def)
    with 1 show ?thesis by (simp add: name_map_first_declared app_eval)
  next
    case 2
    with assms(2) have "n = ''Counter''" by (simp add: counter_route_def)
    with 2 show ?thesis by (simp add: name_map_first_declared app_eval)
  next
    case 3
    with assms(2) have "n = ''Show''" by (simp add: show_route_def)
    with 3 show ?thesis by (simp add: name_map_first_declared app_eval)
  qed
qed

section \<open>Properties of the module\<close>

text \<open>
  C1: the exported router resolves every plain absolute path: the root (or the empty
  path) to Home, \<^verbatim>\<open>/Counter\<close> and \<^verbatim>\<open>/Show\<close> with or without one trailing slash
  and in any letter case to Counter and Show, and every other path to no route.
\<close>

theorem app_navigation_absolute:
  assumes "plain_absolute_path x"
  shows "resolved_view (app_router env) (Raw_path x) current =
    Inr (if fold_case x = [] \<or> fold_case x = fold_case ''/'' then Some Home
         else if fold_case x = fold_case ''/Counter'' \<or> fold_case x = fold_case ''/Counter/'' then Some Counter
         else if fold_case x = fold_case ''/Show'' \<or> fold_case x = fold_case ''/Show/'' then Some Show
         else None)"
  using assms by (simp add: resolved_view_def app_router_match_absolute app_eval)

theorem app_navigation_absolute_witness:
  "plain_absolute_path ''/counter/'' \<and>
   resolved_view (app_router browser_env) (Raw_path ''/counter/'') ''/'' = Inr (Some Counter)"
proof -
  have p: "plain_absolute_path ''/counter/''" by (simp add: plain_absolute_path_def)
  show ?thesis
    using app_navigation_absolute [OF p, of browser_env "''/''"] p by (simp add: canonicalize_def)
qed

text \<open>
  C3: navigating by name (\<^verbatim>\<open>{name: n}\<close>, \<open>n\<close> non-empty) resolves the three
  declared names to their views, and any other name to no route.
\<close>

theorem app_named_navigation:
  assumes "n \<noteq> []"
  shows "resolved_view (app_router env) (Raw_name n) current =
    Inr (if n = ''Home'' then Some Home else if n = ''Counter'' then Some Counter
         else if n = ''Show'' then Some Show else None)"
  using assms
  by (simp add: resolved_view_def router_match_def route_match_name matcher_app_router
      name_map_first_declared app_defs)

theorem app_named_navigation_witness:
  "''About'' \<noteq> [] \<and> resolved_view (app_router browser_env) (Raw_name ''About'') ''/'' = Inr None"
proof -
  have n: "''About'' \<noteq> []" by simp
  show ?thesis using app_named_navigation [OF n, of browser_env "''/''"] by simp
qed

text \<open>
  C4: no navigation on the exported router raises: the matcher never reads the
  regular expression of a missing record, for any location and current route.
\<close>

theorem app_router_never_fails:
  "router_match (app_router env) raw current \<noteq> Inl e"
  unfolding app_router_def by (rule router_match_never_fails)

text \<open>
  C5: loading the module into a runtime where vue-router is not installed yet
  installs it exactly once: the plugin is appended to Vue's plugin list, the router
  mixin is registered, \<^verbatim>\<open>$router\<close> and \<^verbatim>\<open>$route\<close> are defined on the
  prototype, \<^verbatim>\<open>RouterView\<close> and \<^verbatim>\<open>RouterLink\<close> are registered, and the
  module exports the router built from the table.
\<close>

theorem load_router_module_fresh:
  assumes "plugin_fresh s"
  shows "load_router_module env s = Inr (s\<lparr>installed_plugins := installed_plugins s @ [Vue_router],
      install_installed := True,
      global_mixins := global_mixins s @ [''router-lifecycle''],
      prototype_props := prototype_props s @ [''$router'', ''$route''],
      global_components := add_key ''RouterLink'' (add_key ''RouterView'' (global_components s))\<rparr>,
    app_router env)"
  using assms
  by (simp add: load_router_module_def vue_use_def plugin_fresh_def plugin_install_def
      router_install_fresh)

theorem load_router_module_fresh_witness:
  "plugin_fresh vue_initial_runtime \<and>
   load_router_module browser_env vue_initial_runtime =
     Inr (\<lparr>installed_plugins = [Vue_router], global_mixins = [''router-lifecycle''],
           prototype_props = [''$data'', ''$props'', ''$isServer'', ''$ssrContext'', ''$router'', ''$route''],
           global_components = [''KeepAlive'', ''Transition'', ''TransitionGroup'', ''RouterView'', ''RouterLink''],
           install_installed = True\<rparr>,
          app_router browser_env)"
proof -
  have f: "plugin_fresh vue_initial_runtime"
    by (simp add: plugin_fresh_def router_fresh_def vue_initial_runtime_def)
  show ?thesis
    using load_router_module_fresh [OF f, of browser_env] f
    by (simp add: vue_initial_runtime_def add_key_def)
qed

text \<open>
  C6: evaluating the module a second time in the runtime the first evaluation left
  (a reload) changes nothing and raises nothing: \<^verbatim>\<open>Vue.use\<close> skips a plugin it
  has installed, so \<^verbatim>\<open>$router\<close> is not redefined.
\<close>

theorem load_router_module_reload:
  "js_bind (load_router_module env s) (\<lambda>(s', r). load_router_module env s') = load_router_module env s"
proof (cases "vue_use plugin_install Vue_router s")
  case (Inl e)
  then show ?thesis by (simp add: load_router_module_def)
next
  case (Inr s')
  then have "Vue_router \<in> set (installed_plugins s')" by (rule vue_use_installed)
  with Inr show ?thesis by (simp add: load_router_module_def vue_use_again)
qed

text \<open>C7: loading the module keeps Vue's plugin list free of duplicates.\<close>

theorem load_router_module_distinct:
  assumes "distinct (installed_plugins s)" and "load_router_module env s = Inr (s', r)"
  shows "distinct (installed_plugins s')"
proof -
  have keeps: "keeps_plugins plugin_install"
    by (auto simp: keeps_plugins_def plugin_install_def split: plugin.splits
        dest: router_install_keeps_plugins)
  from assms(2) have "vue_use plugin_install Vue_router s = Inr s'"
    by (auto simp: load_router_module_def js_bind_eq_Inr)
  with keeps assms(1) show ?thesis by (rule vue_use_distinct)
qed

theorem load_router_module_distinct_witness:
  "\<exists>s' r. distinct (installed_plugins vue_initial_runtime) \<and>
     load_router_module browser_env vue_initial_runtime = Inr (s', r) \<and> distinct (installed_plugins s')"
proof -
  have d: "distinct (installed_plugins vue_initial_runtime)" by (simp add: vue_initial_runtime_def)
  obtain s' r where l: "load_router_module browser_env vue_initial_runtime = Inr (s', r)"
    by (auto simp: load_router_module_def vue_use_def plugin_install_def router_install_def
        vue_initial_runtime_def vue_mixin_def define_prototype_property_def Let_def)
  show ?thesis using load_router_module_distinct [OF d l] d l by blast
qed

text \<open>
  C8: a query string and a hash after a plain absolute path do not change the view
  a navigation resolves to.
\<close>

theorem app_query_hash_ignored:
  assumes "plain_absolute_path p" and "CHR ''#'' \<notin> set q"
  shows "resolved_view (app_router env) (Raw_path (p @ ''?'' @ q @ ''#'' @ h)) current =
    resolved_view (app_router env) (Raw_path p) current"
  unfolding resolved_view_def router_match_def route_match_query_hash [OF assms] ..

theorem app_query_hash_ignored_witness:
  "plain_absolute_path ''/Show'' \<and> CHR ''#'' \<notin> set ''x=1'' \<and>
   resolved_view (app_router browser_env) (Raw_path (''/Show'' @ ''?'' @ ''x=1'' @ ''#'' @ ''top'')) ''/'' =
   resolved_view (app_router browser_env) (Raw_path ''/Show'') ''/''"
proof -
  have p: "plain_absolute_path ''/Show''" by (simp add: plain_absolute_path_def)
  have q: "CHR ''#'' \<notin> set ''x=1''" by simp
  show ?thesis using app_query_hash_ignored [OF p q, of browser_env "''top''" "''/''"] p q by blast
qed

text \<open>
  C9: navigating up from any route of the table, by any number of \<^verbatim>\<open>../\<close>
  segments, resolves to the empty path: \<^verbatim>\<open>resolvePath\<close> pops the current route's
  segment and then the leading empty one, and joins what remains to the empty string.
  \<^verbatim>\<open>match\<close> treats the empty path as no location, so no view is shown, although
  \<^verbatim>\<open>/\<close> itself shows Home.
\<close>

theorem app_parent_navigation_empty:
  assumes "r \<in> set app_routes"
  shows "resolved_view (app_router env) (Raw_path (concat (replicate (Suc k) ''../''))) (path r) = Inr None"
proof -
  obtain w where w: "path r = CHR ''/'' # w" "CHR ''/'' \<notin> set w"
    using app_route_paths_one_segment [OF assms] by blast
  have nq: "CHR ''#'' \<notin> set (concat (replicate (Suc k) ''../''))"
    "CHR ''?'' \<notin> set (concat (replicate (Suc k) ''../''))" by auto
  have "normalize_location (Raw_path (concat (replicate (Suc k) ''../''))) (path r) =
      \<lparr>loc_name = None, loc_path = [], loc_query = [], loc_hash = []\<rparr>"
    using nq by (simp add: w normalize_location_def normalize_path_location_def parse_path_plain
        resolve_path_parents_only [OF w(2)] del: replicate_Suc)
  then show ?thesis
    by (simp add: resolved_view_def router_match_def route_match_def Let_def del: replicate_Suc)
qed

theorem app_parent_navigation_empty_witness:
  "show_route \<in> set app_routes \<and>
   resolved_view (app_router browser_env) (Raw_path (concat (replicate (Suc 1) ''../''))) (path show_route) = Inr None"
proof -
  have r: "show_route \<in> set app_routes" by (simp add: app_routes_def)
  show ?thesis using app_parent_navigation_empty [OF r, of browser_env 1] r by blast
qed

text \<open>
  C13: for every route of the table, navigating by its name (a named
  \<^verbatim>\<open>router-link\<close>) and navigating to its path give the same match, from any
  current routes: the name map and the path map of the matcher agree.
\<close>

theorem app_name_path_agree:
  assumes "r \<in> set app_routes" and "name r = Some n"
  shows "router_match (app_router env) (Raw_name n) current =
         router_match (app_router env) (Raw_path (path r)) current'"
proof -
  have plain: "plain_absolute_path (path r)"
    using app_paths_plain assms(1) by (simp add: list_all_iff)
  have name_side: "router_match (app_router env) (Raw_name n) current =
      Inr (name_map (create_route_map app_routes) n)"
    using assms(1,2) app_route_names_nonempty
    by (simp add: router_match_def route_match_name matcher_app_router)
  have path_side: "router_match (app_router env) (Raw_path (path r)) current' =
      Inr (reference_match app_routes (path r))"
    by (rule app_router_match_absolute [OF plain])
  from name_side path_side app_route_lookup [OF assms] show ?thesis by simp
qed

theorem app_name_path_agree_witness:
  "show_route \<in> set app_routes \<and> name show_route = Some ''Show'' \<and>
   router_match (app_router browser_env) (Raw_name ''Show'') ''/'' =
   router_match (app_router browser_env) (Raw_path (path show_route)) ''/Counter''"
proof -
  have r: "show_route \<in> set app_routes" by (simp add: app_routes_def)
  have n: "name show_route = Some ''Show''" by (simp add: show_route_def)
  show ?thesis using app_name_path_agree [OF r n, of browser_env "''/''" "''/Counter''"] r n by blast
qed

text \<open>
  C14: relative navigation from any route of the table: a relative location made of
  plain segments (no \<^verbatim>\<open>.\<close> or \<^verbatim>\<open>..\<close>, no query or hash), after any number
  of leading \<^verbatim>\<open>../\<close>, resolves against the current route's directory, which for
  every route of the table is the root, and \<^verbatim>\<open>..\<close> never climbs above the root. So
  it shows the same view as the absolute path \<^verbatim>\<open>/\<close> followed by it.
\<close>

theorem app_plain_relative_navigation:
  assumes "r \<in> set app_routes" and "plain_relative_path x"
  shows "resolved_view (app_router env) (Raw_path (concat (replicate k ''../'') @ x)) (path r) =
         resolved_view (app_router env) (Raw_path (''/'' @ x)) current"
proof -
  obtain w where w: "path r = CHR ''/'' # w" "CHR ''/'' \<notin> set w"
    using app_route_paths_one_segment [OF assms(1)] by blast
  have "plain_absolute_path (CHR ''/'' # x)"
    using assms(2) by (simp add: plain_absolute_path_def plain_relative_path_def)
  then show ?thesis
    by (simp add: resolved_view_def router_match_def w route_match_parents [OF assms(2) w(2)]
        route_match_absolute)
qed

theorem app_plain_relative_navigation_witness:
  "counter_route \<in> set app_routes \<and> plain_relative_path ''Show'' \<and>
   resolved_view (app_router browser_env) (Raw_path (concat (replicate 3 ''../'') @ ''Show'')) (path counter_route) =
   resolved_view (app_router browser_env) (Raw_path (''/'' @ ''Show'')) ''/''"
proof -
  have r: "counter_route \<in> set app_routes" by (simp add: app_routes_def)
  have x: "plain_relative_path ''Show''" by (simp add: plain_relative_path_def)
  show ?thesis using app_plain_relative_navigation [OF r x, of browser_env 3 "''/''"] r x by blast
qed

text \<open>
  C15: the order of the route table does not matter: a router built from the same
  routes in any order, or with some of them repeated, resolves every location (by path
  or by name, from any current route) to the same view as the exported router. No
  route shadows another, so the first-match rule of the matcher never decides.
\<close>

theorem app_route_order_irrelevant:
  assumes "set rs = set app_routes"
  shows "resolved_view (new_router env (app_router_options\<lparr>routes := rs\<rparr>)) raw current =
         resolved_view (app_router env) raw current"
  using route_match_same_routes [OF app_routes_distinct_route_paths app_route_names_distinct assms]
  by (simp add: resolved_view_def router_match_def matcher_new_router app_router_def app_router_options_def)

theorem app_route_order_irrelevant_witness:
  "set (rev app_routes) = set app_routes \<and>
   resolved_view (new_router browser_env (app_router_options\<lparr>routes := rev app_routes\<rparr>)) (Raw_path ''/Show'') ''/'' =
   resolved_view (app_router browser_env) (Raw_path ''/Show'') ''/''"
proof -
  have s: "set (rev app_routes) = set app_routes" by simp
  show ?thesis using app_route_order_irrelevant [OF s, of browser_env "Raw_path ''/Show''" "''/''"] s by blast
qed

text \<open>
  C16: at most one route of the table matches any location: the compiled patterns of
  \<^verbatim>\<open>/\<close>, \<^verbatim>\<open>/Counter\<close> and \<^verbatim>\<open>/Show\<close> (case-insensitive, optional trailing
  slash) are pairwise disjoint.
\<close>

theorem app_routes_match_at_most_one:
  "length (filter (\<lambda>r. regex_matches (rr_regex (make_route_record r)) x) app_routes) \<le> 1"
proof (rule length_filter_le_1)
  show "distinct app_routes" by (simp add: app_defs)
next
  fix q r assume "q \<in> set app_routes" "r \<in> set app_routes"
    and "regex_matches (rr_regex (make_route_record q)) x" "regex_matches (rr_regex (make_route_record r)) x"
  then show "q = r" by (rule distinct_route_paths_match_unique [OF app_routes_distinct_route_paths])
qed
text \<open>
  C18: loading the module into a runtime where another script has already defined
  \<^verbatim>\<open>$router\<close> on \<^verbatim>\<open>Vue.prototype\<close> (and vue-router is not installed) throws the
  TypeError of \<^verbatim>\<open>Object.defineProperty\<close>, but vue-router's install has already set
  its \<^verbatim>\<open>installed\<close> flag and registered its mixin. Loading the module again on that
  runtime then succeeds: \<^verbatim>\<open>Vue.use\<close> records the plugin and the router is
  exported, yet \<^verbatim>\<open>$route\<close> is never defined, because the install returns at once on
  its flag.
\<close>

theorem load_router_module_partial_install:
  assumes "Vue_router \<notin> set (installed_plugins s)" and "\<not> install_installed s"
    and "''$router'' \<in> set (prototype_props s)" and "''$route'' \<notin> set (prototype_props s)"
  shows "load_router_module env s =
           Inl (Type_error ''Cannot redefine property: $router'',
                s\<lparr>install_installed := True, global_mixins := global_mixins s @ [''router-lifecycle'']\<rparr>) \<and>
         (\<exists>s2. load_router_module env
                 (s\<lparr>install_installed := True, global_mixins := global_mixins s @ [''router-lifecycle'']\<rparr>) =
               Inr (s2, app_router env) \<and>
               Vue_router \<in> set (installed_plugins s2) \<and> ''$route'' \<notin> set (prototype_props s2))"
  using assms
  by (simp add: load_router_module_def vue_use_def plugin_install_def router_install_def
      vue_mixin_def define_prototype_property_def)

theorem load_router_module_partial_install_witness:
  "Vue_router \<notin> set (installed_plugins vue_initial_runtime) \<and> \<not> install_installed vue_initial_runtime \<and>
   ''$router'' \<in> set (prototype_props (vue_initial_runtime\<lparr>prototype_props := [''$router'']\<rparr>)) \<and>
   (\<exists>e s1. load_router_module browser_env (vue_initial_runtime\<lparr>prototype_props := [''$router'']\<rparr>) = Inl (e, s1))"
proof -
  let ?s = "vue_initial_runtime\<lparr>prototype_props := [''$router'']\<rparr>"
  have h: "Vue_router \<notin> set (installed_plugins ?s)" "\<not> install_installed ?s"
    "''$router'' \<in> set (prototype_props ?s)" "''$route'' \<notin> set (prototype_props ?s)"
    by (simp_all add: vue_initial_runtime_def)
  show ?thesis
    using load_router_module_partial_install [OF h, of browser_env] h by (auto simp: vue_initial_runtime_def)
qed
text \<open>
  C21: the matcher the constructor builds refines the declared table: read back
  through its path list and path map (\<open>route_records\<close>) it is the table's records in
  declaration order, and its name map is the lookup of the table's (name, record)
  pairs. The route table reaches the framework as the ordered, read-only sequence of
  route descriptors that spec section 4.1 describes.
\<close>

theorem app_matcher_refines_table:
  "route_records (matcher (app_router env)) = map make_route_record app_routes \<and>
   name_map (matcher (app_router env)) = map_of (map (\<lambda>r. (the (name r), make_route_record r)) app_routes)"
proof
  show "route_records (matcher (app_router env)) = map make_route_record app_routes"
    by (simp add: matcher_app_router route_records_create_route_map [OF app_routes_distinct_route_paths])
next
  have "list_all (\<lambda>r. name r \<noteq> None \<and> name r \<noteq> Some []) app_routes"
    by (simp add: app_defs)
  then show "name_map (matcher (app_router env)) = map_of (map (\<lambda>r. (the (name r), make_route_record r)) app_routes)"
    by (simp add: matcher_app_router name_map_create_route_map fun_eq_iff)
qed

end
