(* ===== verification/Abstract_History.thy ===== *)
theory Abstract_History
  imports Router
begin

text \<open>
  Navigation as a state machine: vue-router's \<^verbatim>\<open>AbstractHistory\<close>
  (history/abstract.js), the history the router uses in abstract mode, i.e. outside a
  browser. Its state is the current route (initially the special \<^verbatim>\<open>START\<close>
  route, modelled as \<open>None\<close>), a stack of routes and an index into it, initially
  empty and \<open>-1\<close>. \<^verbatim>\<open>push\<close>, \<^verbatim>\<open>replace\<close> and \<^verbatim>\<open>go\<close> are the operations;
  \<^verbatim>\<open>transitionTo\<close> matches the location against the router's matcher and
  \<^verbatim>\<open>confirmTransition\<close> aborts a navigation to the route already current with
  \<^verbatim>\<open>NavigationDuplicated\<close> (history/base.js). No navigation guard is registered
  by the module, so every other transition completes. Queries are compared as the
  raw strings the model keeps, where vue-router compares the parsed objects.
\<close>

section \<open>Routes\<close>

text \<open>A \<^verbatim>\<open>Route\<close> object as \<^verbatim>\<open>createRoute\<close> (util/route.js) builds it.\<close>

record 'c route =
  route_name :: "string option"
  route_path :: string
  route_hash :: string
  route_query :: string
  route_matched :: "'c route_record list"

definition record_name :: "'c route_record option \<Rightarrow> string option" where
  "record_name record = (case record of Some r \<Rightarrow> rr_name r | None \<Rightarrow> None)"

text \<open>
  \<^verbatim>\<open>createRoute(record, location)\<close>: the name is \<^verbatim>\<open>location.name || (record &&
  record.name)\<close>, the path \<^verbatim>\<open>location.path || '/'\<close>, and \<^verbatim>\<open>matched\<close> the
  record with its parents (a top-level record alone), empty without a record.
\<close>

definition create_route :: "'c route_record option \<Rightarrow> location \<Rightarrow> 'c route" where
  "create_route record location =
     \<lparr>route_name = (case loc_name location of
                     Some n \<Rightarrow> if n \<noteq> [] then Some n else record_name record
                   | None \<Rightarrow> record_name record),
      route_path = (if loc_path location = [] then ''/'' else loc_path location),
      route_hash = loc_hash location, route_query = loc_query location,
      route_matched = (case record of Some r \<Rightarrow> [r] | None \<Rightarrow> [])\<rparr>"

text \<open>
  \<^verbatim>\<open>router.match(raw, current)\<close> as a route: the named branch first sets
  \<^verbatim>\<open>location.path = fillParams(record.path, params)\<close>, which for a path without
  parameters is the record's path.
\<close>

definition match_to_route :: "'c route_map \<Rightarrow> raw_location \<Rightarrow> string \<Rightarrow> js_error + 'c route" where
  "match_to_route m raw current =
     (let location = normalize_location raw current
      in js_bind (route_match m raw current) (\<lambda>record.
           Inr (create_route record
                 (case (loc_name location, record) of
                    (Some n, Some r) \<Rightarrow> if n \<noteq> [] then location\<lparr>loc_path := rr_path r\<rparr> else location
                  | _ \<Rightarrow> location))))"

text \<open>
  \<^verbatim>\<open>isSameRoute(a, b)\<close> for routes with paths: the paths without one trailing slash,
  the hashes and the queries agree.
\<close>

definition same_route :: "'c route \<Rightarrow> 'c route \<Rightarrow> bool" where
  "same_route a b \<longleftrightarrow>
     normalize_path (route_path a) = normalize_path (route_path b) \<and>
     route_hash a = route_hash b \<and> route_query a = route_query b"

text \<open>
  The duplicate test of \<^verbatim>\<open>confirmTransition\<close>: the same route as the current one
  (never the \<^verbatim>\<open>START\<close> route), the same depth of \<^verbatim>\<open>matched\<close> and the same last
  matched record (\<^verbatim>\<open>undefined === undefined\<close> when both are empty).
\<close>

definition navigation_duplicated :: "'c route \<Rightarrow> 'c route option \<Rightarrow> bool" where
  "navigation_duplicated route current =
     (case current of
        None \<Rightarrow> False
      | Some c \<Rightarrow>
          same_route route c \<and> length (route_matched route) = length (route_matched c) \<and>
          (route_matched route = [] \<or> last (route_matched route) = last (route_matched c)))"

section \<open>The history\<close>

record 'c abstract_history =
  hist_current :: "'c route option"
  hist_stack :: "'c route list"
  hist_index :: int

definition history_start :: "'c abstract_history" where
  "history_start = \<lparr>hist_current = None, hist_stack = [], hist_index = -1\<rparr>"

text \<open>The path of the current route; \<^verbatim>\<open>START\<close> has the path \<^verbatim>\<open>/\<close>.\<close>

definition current_path :: "'c abstract_history \<Rightarrow> string" where
  "current_path h = (case hist_current h of None \<Rightarrow> ''/'' | Some r \<Rightarrow> route_path r)"

datatype nav_failure = Navigation_duplicated

datatype nav_op = Push raw_location | Replace raw_location | Go int

text \<open>
  \<^verbatim>\<open>push(location)\<close>: on completion \<^verbatim>\<open>updateRoute\<close> makes the route current,
  then \<^verbatim>\<open>stack = stack.slice(0, index + 1).concat(route)\<close> and \<^verbatim>\<open>index++\<close>.
\<close>

definition history_push ::
  "'c route_map \<Rightarrow> raw_location \<Rightarrow> 'c abstract_history \<Rightarrow>
   js_error + nav_failure option \<times> 'c abstract_history" where
  "history_push m raw h =
     js_bind (match_to_route m raw (current_path h)) (\<lambda>route.
       if navigation_duplicated route (hist_current h) then Inr (Some Navigation_duplicated, h)
       else Inr (None, h\<lparr>hist_current := Some route,
                          hist_stack := js_slice_to (hist_stack h) (hist_index h + 1) @ [route],
                          hist_index := hist_index h + 1\<rparr>))"

text \<open>\<^verbatim>\<open>replace(location)\<close>: \<^verbatim>\<open>stack = stack.slice(0, index).concat(route)\<close>, index unchanged.\<close>

definition history_replace ::
  "'c route_map \<Rightarrow> raw_location \<Rightarrow> 'c abstract_history \<Rightarrow>
   js_error + nav_failure option \<times> 'c abstract_history" where
  "history_replace m raw h =
     js_bind (match_to_route m raw (current_path h)) (\<lambda>route.
       if navigation_duplicated route (hist_current h) then Inr (Some Navigation_duplicated, h)
       else Inr (None, h\<lparr>hist_current := Some route,
                          hist_stack := js_slice_to (hist_stack h) (hist_index h) @ [route]\<rparr>))"

text \<open>
  \<^verbatim>\<open>go(n)\<close>: a target outside the stack is ignored
  (\<^verbatim>\<open>if (targetIndex < 0 || targetIndex >= this.stack.length) return\<close>); otherwise
  \<^verbatim>\<open>const route = this.stack[targetIndex]\<close> is confirmed. Reading the stack is a
  JavaScript array read (\<open>js_array_get\<close>): past the end it gives \<^verbatim>\<open>undefined\<close>,
  and \<^verbatim>\<open>confirmTransition\<close> then throws a TypeError when it reads the route's
  fields, so it is the guard that keeps \<^verbatim>\<open>go\<close> from throwing. The index moves to
  the target also when the navigation is aborted as a duplicate (the current route then
  stays).
\<close>

definition history_go ::
  "int \<Rightarrow> 'c abstract_history \<Rightarrow> js_error + nav_failure option \<times> 'c abstract_history" where
  "history_go n h =
     (let target = hist_index h + n
      in if target < 0 \<or> int (length (hist_stack h)) \<le> target then Inr (None, h)
         else
           (case js_array_get (hist_stack h) target of
              None \<Rightarrow> Inl (Type_error ''Cannot read properties of undefined (reading matched)'')
            | Some route \<Rightarrow>
                if navigation_duplicated route (hist_current h)
                then Inr (Some Navigation_duplicated, h\<lparr>hist_index := target\<rparr>)
                else Inr (None, h\<lparr>hist_index := target, hist_current := Some route\<rparr>)))"

definition history_op ::
  "'c route_map \<Rightarrow> nav_op \<Rightarrow> 'c abstract_history \<Rightarrow>
   js_error + nav_failure option \<times> 'c abstract_history" where
  "history_op m op h =
     (case op of
        Push raw \<Rightarrow> history_push m raw h
      | Replace raw \<Rightarrow> history_replace m raw h
      | Go n \<Rightarrow> history_go n h)"

text \<open>A sequence of navigations, stopping at the first exception.\<close>

fun history_run ::
  "'c route_map \<Rightarrow> nav_op list \<Rightarrow> 'c abstract_history \<Rightarrow>
   js_error + nav_failure option list \<times> 'c abstract_history" where
  "history_run m [] h = Inr ([], h)"
| "history_run m (op # ops) h =
     js_bind (history_op m op h) (\<lambda>(r, h').
       js_bind (history_run m ops h') (\<lambda>(rs, h''). Inr (r # rs, h'')))"

text \<open>The states a history reaches from its start, by any navigations in any order.\<close>

inductive history_reachable :: "'c route_map \<Rightarrow> 'c abstract_history \<Rightarrow> bool" for m where
  start: "history_reachable m history_start"
| step: "history_reachable m h \<Longrightarrow> history_op m op h = Inr (r, h') \<Longrightarrow> history_reachable m h'"

text \<open>
  The invariant: the index is \<open>-1\<close> or a position of the stack, and at a position
  the current route is the same route as the one stacked there.
\<close>

definition history_inv :: "'c abstract_history \<Rightarrow> bool" where
  "history_inv h \<longleftrightarrow>
     -1 \<le> hist_index h \<and> hist_index h < int (length (hist_stack h)) \<and>
     (0 \<le> hist_index h \<longrightarrow>
        (\<exists>c. hist_current h = Some c \<and> same_route (hist_stack h ! nat (hist_index h)) c))"

section \<open>Lemmas\<close>

lemma same_route_refl [simp]: "same_route r r"
  by (simp add: same_route_def)

lemma navigation_duplicated_current:
  "navigation_duplicated route current \<Longrightarrow> \<exists>c. current = Some c \<and> same_route route c"
  by (auto simp: navigation_duplicated_def split: option.splits)

lemma history_inv_start: "history_inv history_start"
  by (simp add: history_inv_def history_start_def)

lemma history_push_inv:
  assumes inv: "history_inv h" and step: "history_push m raw h = Inr (r, h')"
  shows "history_inv h'"
proof (cases "match_to_route m raw (current_path h)")
  case (Inl e)
  with step show ?thesis by (simp add: history_push_def)
next
  case (Inr route)
  let ?i = "hist_index h" and ?s = "hist_stack h"
  from inv have i: "-1 \<le> ?i" "?i < int (length ?s)" by (simp_all add: history_inv_def)
  show ?thesis
  proof (cases "navigation_duplicated route (hist_current h)")
    case True
    with step Inr have "h' = h" by (simp add: history_push_def)
    with inv show ?thesis by simp
  next
    case False
    with step Inr i have h': "h' = h\<lparr>hist_current := Some route,
        hist_stack := take (nat (?i + 1)) ?s @ [route], hist_index := ?i + 1\<rparr>"
      by (auto simp: history_push_def js_slice_to_def)
    have len: "length (take (nat (?i + 1)) ?s) = nat (?i + 1)" using i by simp
    then have "(take (nat (?i + 1)) ?s @ [route]) ! nat (?i + 1) = route"
      by (simp add: nth_append)
    with h' i len show ?thesis by (simp add: history_inv_def)
  qed
qed

lemma history_replace_inv:
  assumes inv: "history_inv h" and step: "history_replace m raw h = Inr (r, h')"
  shows "history_inv h'"
proof (cases "match_to_route m raw (current_path h)")
  case (Inl e)
  with step show ?thesis by (simp add: history_replace_def)
next
  case (Inr route)
  let ?i = "hist_index h" and ?s = "hist_stack h"
  from inv have i: "-1 \<le> ?i" "?i < int (length ?s)" by (simp_all add: history_inv_def)
  show ?thesis
  proof (cases "navigation_duplicated route (hist_current h)")
    case True
    with step Inr have "h' = h" by (simp add: history_replace_def)
    with inv show ?thesis by simp
  next
    case False
    with step Inr have h': "h' = h\<lparr>hist_current := Some route,
        hist_stack := js_slice_to ?s ?i @ [route]\<rparr>"
      by (auto simp: history_replace_def)
    show ?thesis
    proof (cases "0 \<le> ?i")
      case True
      then have len: "length (js_slice_to ?s ?i) = nat ?i"
        using i by (simp add: js_slice_to_def)
      then have "(js_slice_to ?s ?i @ [route]) ! nat ?i = route" by (simp add: nth_append)
      with h' i len True show ?thesis by (simp add: history_inv_def)
    next
      case False
      with h' i show ?thesis by (simp add: history_inv_def)
    qed
  qed
qed

lemma history_go_out_of_range:
  "hist_index h + n < 0 \<or> int (length (hist_stack h)) \<le> hist_index h + n \<Longrightarrow>
   history_go n h = Inr (None, h)"
  by (simp add: history_go_def)

lemma history_go_in_range:
  assumes "0 \<le> hist_index h + n" and "hist_index h + n < int (length (hist_stack h))"
  shows "history_go n h =
    (let route = hist_stack h ! nat (hist_index h + n)
     in if navigation_duplicated route (hist_current h)
        then Inr (Some Navigation_duplicated, h\<lparr>hist_index := hist_index h + n\<rparr>)
        else Inr (None, h\<lparr>hist_index := hist_index h + n, hist_current := Some route\<rparr>))"
  using assms by (simp add: history_go_def js_array_get_def Let_def)

lemma history_go_total: "\<exists>res. history_go n h = Inr res"
  by (cases "hist_index h + n < 0 \<or> int (length (hist_stack h)) \<le> hist_index h + n")
    (simp_all add: history_go_out_of_range history_go_in_range Let_def)

lemma history_go_inv:
  assumes inv: "history_inv h" and step: "history_go n h = Inr (r, h')"
  shows "history_inv h'"
proof -
  let ?t = "hist_index h + n" and ?s = "hist_stack h"
  show ?thesis
  proof (cases "?t < 0 \<or> int (length ?s) \<le> ?t")
    case True
    with step inv show ?thesis by (simp add: history_go_out_of_range)
  next
    case False
    then have go: "history_go n h = (let route = ?s ! nat ?t
        in if navigation_duplicated route (hist_current h)
           then Inr (Some Navigation_duplicated, h\<lparr>hist_index := ?t\<rparr>)
           else Inr (None, h\<lparr>hist_index := ?t, hist_current := Some route\<rparr>))"
      by (intro history_go_in_range) auto
    show ?thesis
    proof (cases "navigation_duplicated (?s ! nat ?t) (hist_current h)")
      case True
      with go step have h': "h' = h\<lparr>hist_index := ?t\<rparr>" by (simp add: Let_def)
      from navigation_duplicated_current [OF True] False h' show ?thesis
        by (auto simp: history_inv_def)
    next
      case dup: False
      with go step have h': "h' = h\<lparr>hist_index := ?t, hist_current := Some (?s ! nat ?t)\<rparr>"
        by (simp add: Let_def)
      with False show ?thesis by (simp add: history_inv_def)
    qed
  qed
qed

lemma history_op_inv:
  "history_inv h \<Longrightarrow> history_op m op h = Inr (r, h') \<Longrightarrow> history_inv h'"
  by (cases op) (auto simp: history_op_def intro: history_push_inv history_replace_inv history_go_inv)

lemma history_reachable_inv: "history_reachable m h \<Longrightarrow> history_inv h"
proof (induction rule: history_reachable.induct)
  case start
  show ?case by (rule history_inv_start)
next
  case (step h op r h')
  then show ?case by (blast intro: history_op_inv)
qed

lemma history_run_reachable:
  "history_reachable m h \<Longrightarrow> history_run m ops h = Inr (rs, h') \<Longrightarrow> history_reachable m h'"
proof (induction ops arbitrary: h rs)
  case Nil
  then show ?case by simp
next
  case (Cons op ops)
  from Cons.prems(2) obtain r h1 rs1 where
    op: "history_op m op h = Inr (r, h1)" and run: "history_run m ops h1 = Inr (rs1, h')"
    by (auto simp: js_bind_eq_Inr split: prod.splits)
  from Cons.prems(1) op have "history_reachable m h1" by (rule history_reachable.step)
  then show ?case using run by (rule Cons.IH)
qed

lemma match_to_route_total:
  "route_map_inv m \<Longrightarrow> \<exists>route. match_to_route m raw current = Inr route"
  using route_match_total [of m raw current]
  by (auto simp: match_to_route_def Let_def)

lemma history_op_total:
  assumes "route_map_inv m"
  shows "\<exists>res. history_op m op h = Inr res"
proof (cases op)
  case (Push raw)
  obtain route where "match_to_route m raw (current_path h) = Inr route"
    using match_to_route_total [OF assms] by blast
  with Push show ?thesis by (simp add: history_op_def history_push_def)
next
  case (Replace raw)
  obtain route where "match_to_route m raw (current_path h) = Inr route"
    using match_to_route_total [OF assms] by blast
  with Replace show ?thesis by (simp add: history_op_def history_replace_def)
next
  case (Go n)
  obtain res where "history_go n h = Inr res" using history_go_total by blast
  with Go show ?thesis by (simp add: history_op_def)
qed

lemma match_to_route_absolute:
  "plain_absolute_path x \<Longrightarrow> match_to_route m (Raw_path x) current =
     js_bind (match_path m x) (\<lambda>record. Inr (create_route record
        \<lparr>loc_name = None, loc_path = x, loc_query = [], loc_hash = []\<rparr>))"
  by (simp add: match_to_route_def normalize_location_absolute route_match_absolute)

lemma navigation_duplicated_self: "navigation_duplicated route (Some route)"
  by (simp add: navigation_duplicated_def)

lemma history_push_absolute_again:
  assumes x: "plain_absolute_path x"
    and step: "history_push m (Raw_path x) h = Inr (None, h')"
  shows "history_push m (Raw_path x) h' = Inr (Some Navigation_duplicated, h')"
proof (cases "match_to_route m (Raw_path x) (current_path h)")
  case (Inl e)
  with step show ?thesis by (simp add: history_push_def)
next
  case (Inr route)
  with step have cur: "hist_current h' = Some route"
    by (auto simp: history_push_def split: if_splits)
  from Inr have "match_to_route m (Raw_path x) (current_path h') = Inr route"
    by (simp add: match_to_route_absolute [OF x])
  with cur show ?thesis by (simp add: history_push_def navigation_duplicated_self)
qed

lemma history_go_back:
  assumes inv: "history_inv h" and i: "0 \<le> hist_index h"
    and t: "0 \<le> hist_index h + n" "hist_index h + n < int (length (hist_stack h))"
  shows "\<exists>rs h'. history_run m [Go n, Go (- n)] h = Inr (rs, h') \<and>
           hist_index h' = hist_index h \<and> hist_stack h' = hist_stack h \<and>
           (\<exists>c. hist_current h' = Some c \<and> same_route (hist_stack h ! nat (hist_index h)) c)"
proof -
  let ?i = "hist_index h" and ?s = "hist_stack h"
  have len: "?i < int (length ?s)" using inv by (simp add: history_inv_def)
  obtain r1 h1 where g1: "history_go n h = Inr (r1, h1)"
    using history_go_total [of n h] by (metis surj_pair)
  have s1: "hist_stack h1 = ?s" and i1: "hist_index h1 = ?i + n"
    using g1 history_go_in_range [OF t] by (auto simp: Let_def split: if_splits)
  obtain r2 h2 where g2: "history_go (- n) h1 = Inr (r2, h2)"
    using history_go_total [of "- n" h1] by (metis surj_pair)
  have range: "0 \<le> hist_index h1 + - n" "hist_index h1 + - n < int (length (hist_stack h1))"
    using i len s1 i1 by simp_all
  have h2: "hist_stack h2 = ?s \<and> hist_index h2 = ?i \<and>
      (\<exists>c. hist_current h2 = Some c \<and> same_route (?s ! nat ?i) c)"
  proof (cases "navigation_duplicated (?s ! nat ?i) (hist_current h1)")
    case True
    then obtain c where "hist_current h1 = Some c" "same_route (?s ! nat ?i) c"
      using navigation_duplicated_current by blast
    with True g2 history_go_in_range [OF range] s1 i1 show ?thesis by (auto simp: Let_def)
  next
    case False
    with g2 history_go_in_range [OF range] s1 i1 show ?thesis by (auto simp: Let_def)
  qed
  have "history_run m [Go n, Go (- n)] h = Inr ([r1, r2], h2)"
    by (simp add: history_op_def g1 g2)
  with h2 show ?thesis by blast
qed

lemma history_push_completed:
  assumes inv: "history_inv h" and step: "history_push m raw h = Inr (None, h')"
  shows "hist_index h' + 1 = int (length (hist_stack h')) \<and>
    butlast (hist_stack h') = take (nat (hist_index h + 1)) (hist_stack h) \<and>
    hist_current h' = Some (last (hist_stack h'))"
proof (cases "match_to_route m raw (current_path h)")
  case (Inl e)
  with step show ?thesis by (simp add: history_push_def)
next
  case (Inr route)
  let ?i = "hist_index h" and ?s = "hist_stack h"
  from inv have i: "-1 \<le> ?i" "?i < int (length ?s)" by (simp_all add: history_inv_def)
  from step Inr have "\<not> navigation_duplicated route (hist_current h)"
    by (auto simp: history_push_def split: if_splits)
  with step Inr i have h': "h' = h\<lparr>hist_current := Some route,
      hist_stack := take (nat (?i + 1)) ?s @ [route], hist_index := ?i + 1\<rparr>"
    by (auto simp: history_push_def js_slice_to_def)
  have "length (take (nat (?i + 1)) ?s) = nat (?i + 1)" using i by simp
  with h' i show ?thesis by simp
qed

lemma history_replace_then_push:
  assumes run: "history_run m [Replace a, Push b] history_start = Inr ([r1, None], h)"
  shows "hist_index h = 0 \<and> length (hist_stack h) = 1 \<and> hist_current h = Some (hd (hist_stack h))"
proof -
  from run obtain h1 where rep: "history_replace m a history_start = Inr (r1, h1)"
    and push: "history_push m b h1 = Inr (None, h)"
    by (auto simp: history_op_def js_bind_eq_Inr split: prod.splits)
  from rep have h1: "hist_index h1 = -1" "length (hist_stack h1) = 1"
    by (auto simp: history_replace_def history_start_def js_slice_to_def js_bind_eq_Inr
        navigation_duplicated_def split: if_splits)
  from push obtain route where
    "h = h1\<lparr>hist_current := Some route, hist_stack := js_slice_to (hist_stack h1) 0 @ [route],
       hist_index := 0\<rparr>"
    using h1 by (auto simp: history_push_def js_bind_eq_Inr split: if_splits)
  then show ?thesis by (simp add: js_slice_to_def)
qed

end
