(* ===== verification/App_History.thy ===== *)
theory App_History
  imports Router_Config Abstract_History
begin

text \<open>
  Navigation on the exported router in abstract mode (the mode \<open>new_router\<close>
  chooses outside a browser, as the module passes no \<^verbatim>\<open>mode\<close>): the history
  state machine of Abstract_History run over the router's matcher.
\<close>

abbreviation app_matcher :: "router_env \<Rightarrow> component route_map" where
  "app_matcher env \<equiv> matcher (app_router env)"

lemma app_match_to_route_absolute:
  "plain_absolute_path x \<Longrightarrow> match_to_route (app_matcher env) (Raw_path x) current =
     Inr (create_route (reference_match app_routes x)
        \<lparr>loc_name = None, loc_path = x, loc_query = [], loc_hash = []\<rparr>)"
  by (simp add: match_to_route_absolute matcher_app_router match_path_reference)

lemma app_match_to_route_name:
  assumes "n \<noteq> []"
  shows "match_to_route (app_matcher env) (Raw_name n) current =
    Inr (create_route (name_map (create_route_map app_routes) n)
      (case name_map (create_route_map app_routes) n of
         None \<Rightarrow> \<lparr>loc_name = Some n, loc_path = [], loc_query = [], loc_hash = []\<rparr>
       | Some r \<Rightarrow> \<lparr>loc_name = Some n, loc_path = rr_path r, loc_query = [], loc_hash = []\<rparr>))"
  using assms
  by (simp add: match_to_route_def route_match_name normalize_location_def matcher_app_router
      split: option.split)

lemmas app_history_eval = history_op_def history_push_def history_replace_def history_go_def js_array_get_def
  app_match_to_route_absolute plain_absolute_path_def history_start_def js_slice_to_def
  navigation_duplicated_def current_path_def same_route_def create_route_def
  normalize_path_def Let_def

text \<open>
  C10: every state the exported router's history reaches, by any sequence of
  \<^verbatim>\<open>push\<close>, \<^verbatim>\<open>replace\<close> and \<^verbatim>\<open>go\<close> navigations, has its index at \<open>-1\<close> or
  within the stack, and at a stack position the current route is the same route as
  the one stacked there.
\<close>

theorem app_history_invariant:
  assumes "history_reachable (app_matcher env) h"
  shows "history_inv h"
  using assms by (rule history_reachable_inv)

theorem app_history_invariant_witness:
  "\<exists>h. history_reachable (app_matcher browser_env) h \<and> hist_index h = 0 \<and> history_inv h"
proof -
  obtain rs h where run: "history_run (app_matcher browser_env) [Push (Raw_path ''/Counter'')] history_start = Inr (rs, h)"
    and idx: "hist_index h = 0"
    by (simp add: app_history_eval app_eval)
  have r: "history_reachable (app_matcher browser_env) h"
    using history_run_reachable [OF history_reachable.start run] .
  show ?thesis using r idx app_history_invariant [OF r] by blast
qed

text \<open>
  C11: no navigation on the exported router's history ever throws, from any state:
  \<^verbatim>\<open>push\<close> and \<^verbatim>\<open>replace\<close> because every location matches without the
  missing-record TypeError, and \<^verbatim>\<open>go\<close> because its bounds guard ignores a target
  outside the stack before \<^verbatim>\<open>stack[target]\<close> could read \<^verbatim>\<open>undefined\<close> and
  make \<^verbatim>\<open>confirmTransition\<close> throw.
\<close>

theorem app_history_never_raises:
  "history_op (app_matcher env) op h \<noteq> Inl e"
proof -
  have "route_map_inv (app_matcher env)"
    by (simp add: matcher_app_router create_route_map_inv)
  then obtain res where "history_op (app_matcher env) op h = Inr res"
    using history_op_total by blast
  then show ?thesis by simp
qed

text \<open>
  C12: on the exported router, pushing a plain absolute path a second time right
  after a push of it succeeded is rejected with NavigationDuplicated and leaves the
  history as it is, from any state.
\<close>

theorem app_push_twice_duplicated:
  assumes "plain_absolute_path x"
    and "history_op (app_matcher env) (Push (Raw_path x)) h = Inr (None, h')"
  shows "history_op (app_matcher env) (Push (Raw_path x)) h' = Inr (Some Navigation_duplicated, h')"
  using assms history_push_absolute_again [of x "app_matcher env" h h']
  by (simp add: history_op_def)

theorem app_push_twice_duplicated_witness:
  "plain_absolute_path ''/'' \<and>
   history_op (app_matcher browser_env) (Push (Raw_path ''/'')) history_start =
     Inr (None, \<lparr>hist_current = Some (create_route (Some (make_route_record home_route))
          \<lparr>loc_name = None, loc_path = ''/'', loc_query = [], loc_hash = []\<rparr>),
        hist_stack = [create_route (Some (make_route_record home_route))
          \<lparr>loc_name = None, loc_path = ''/'', loc_query = [], loc_hash = []\<rparr>],
        hist_index = 0\<rparr>) \<and>
   history_op (app_matcher browser_env) (Push (Raw_path ''/''))
     \<lparr>hist_current = Some (create_route (Some (make_route_record home_route))
          \<lparr>loc_name = None, loc_path = ''/'', loc_query = [], loc_hash = []\<rparr>),
        hist_stack = [create_route (Some (make_route_record home_route))
          \<lparr>loc_name = None, loc_path = ''/'', loc_query = [], loc_hash = []\<rparr>],
        hist_index = 0\<rparr> =
     Inr (Some Navigation_duplicated,
       \<lparr>hist_current = Some (create_route (Some (make_route_record home_route))
          \<lparr>loc_name = None, loc_path = ''/'', loc_query = [], loc_hash = []\<rparr>),
        hist_stack = [create_route (Some (make_route_record home_route))
          \<lparr>loc_name = None, loc_path = ''/'', loc_query = [], loc_hash = []\<rparr>],
        hist_index = 0\<rparr>)"
proof -
  have x: "plain_absolute_path ''/''" by (simp add: plain_absolute_path_def)
  have s: "reference_match app_routes ''/'' = Some (make_route_record home_route)"
    by (simp add: app_eval)
  have first: "history_op (app_matcher browser_env) (Push (Raw_path ''/'')) history_start =
     Inr (None, \<lparr>hist_current = Some (create_route (Some (make_route_record home_route))
          \<lparr>loc_name = None, loc_path = ''/'', loc_query = [], loc_hash = []\<rparr>),
        hist_stack = [create_route (Some (make_route_record home_route))
          \<lparr>loc_name = None, loc_path = ''/'', loc_query = [], loc_hash = []\<rparr>],
        hist_index = 0\<rparr>)"
    by (simp only: history_op_def nav_op.case history_push_def app_match_to_route_absolute [OF x] s)
      (simp add: app_history_eval)
  show ?thesis using x first app_push_twice_duplicated [OF x first] by blast
qed

text \<open>
  C17: a push that completes on the exported router's history, from any reachable
  state, keeps the entries up to the current one, drops every entry after it
  (\<^verbatim>\<open>stack.slice(0, index + 1)\<close>), and puts the new route at the end of the stack,
  where the index now points, as the current route.
\<close>

theorem app_push_discards_forward:
  assumes "history_reachable (app_matcher env) h"
    and "history_op (app_matcher env) (Push raw) h = Inr (None, h')"
  shows "hist_index h' + 1 = int (length (hist_stack h')) \<and>
    butlast (hist_stack h') = take (nat (hist_index h + 1)) (hist_stack h) \<and>
    hist_current h' = Some (last (hist_stack h'))"
  using history_push_completed [OF history_reachable_inv [OF assms(1)]] assms(2)
  by (simp add: history_op_def)

theorem app_push_discards_forward_witness:
  "\<exists>rs h h'. history_run (app_matcher browser_env)
       [Push (Raw_path ''/Counter''), Push (Raw_path ''/Show''), Go (-1)] history_start = Inr (rs, h) \<and>
     history_reachable (app_matcher browser_env) h \<and>
     history_op (app_matcher browser_env) (Push (Raw_path ''/'')) h = Inr (None, h') \<and>
     hist_index h' + 1 = int (length (hist_stack h'))"
proof -
  have c1: "reference_match app_routes ''/Show'' = Some (make_route_record show_route)"
    and c2: "reference_match app_routes ''/Counter'' = Some (make_route_record counter_route)"
    and c3: "reference_match app_routes ''/'' = Some (make_route_record home_route)"
    by (simp_all add: app_eval)
  obtain rs h where run: "history_run (app_matcher browser_env)
       [Push (Raw_path ''/Counter''), Push (Raw_path ''/Show''), Go (-1)] history_start = Inr (rs, h)"
    and st: "hist_index h = 0" "hist_current h = Some (create_route (Some (make_route_record counter_route))
          \<lparr>loc_name = None, loc_path = ''/Counter'', loc_query = [], loc_hash = []\<rparr>)"
    by (simp add: app_history_eval c1 c2)
  have r: "history_reachable (app_matcher browser_env) h"
    by (rule history_run_reachable [OF history_reachable.start run])
  obtain h' where p: "history_op (app_matcher browser_env) (Push (Raw_path ''/'')) h = Inr (None, h')"
    using st by (simp add: app_history_eval c3 create_route_def record_name_def)
  show ?thesis using app_push_discards_forward [OF r p] run r p by blast
qed

text \<open>
  C19: for every route of the table, the route object the exported router builds
  (\<^verbatim>\<open>$route\<close>) carries the route's declared name and path, whether the navigation
  names the path or the name: path and name round-trip through the matcher.
\<close>

theorem app_route_name_path_roundtrip:
  assumes "r \<in> set app_routes" and "name r = Some n"
  shows "(\<exists>route. match_to_route (app_matcher env) (Raw_path (path r)) current = Inr route \<and>
            route_name route = Some n \<and> route_path route = path r) \<and>
         (\<exists>route. match_to_route (app_matcher env) (Raw_name n) current = Inr route \<and>
            route_name route = Some n \<and> route_path route = path r)"
proof -
  have plain: "plain_absolute_path (path r)"
    using app_paths_plain assms(1) by (simp add: list_all_iff)
  then have ne: "path r \<noteq> []" by (auto simp: plain_absolute_path_def)
  have nn: "n \<noteq> []" using assms by (rule app_route_names_nonempty)
  note L = app_route_lookup [OF assms]
  have by_name: "name_map (create_route_map app_routes) n = Some (make_route_record r)"
    and by_path: "reference_match app_routes (path r) = Some (make_route_record r)"
    using L by simp_all
  have root: "(if normalize_path (path r) = [] then ''/'' else normalize_path (path r)) = path r"
    using L by (rule conjunct2 [THEN conjunct2])
  have "match_to_route (app_matcher env) (Raw_path (path r)) current =
      Inr (create_route (Some (make_route_record r))
        \<lparr>loc_name = None, loc_path = path r, loc_query = [], loc_hash = []\<rparr>)"
    using app_match_to_route_absolute [OF plain] by (simp add: by_path)
  moreover have "match_to_route (app_matcher env) (Raw_name n) current =
      Inr (create_route (Some (make_route_record r))
        \<lparr>loc_name = Some n, loc_path = normalize_path (path r), loc_query = [], loc_hash = []\<rparr>)"
    using app_match_to_route_name [OF nn] by (simp add: by_name)
  moreover have "route_path (create_route (Some (make_route_record r))
      \<lparr>loc_name = Some n, loc_path = normalize_path (path r), loc_query = [], loc_hash = []\<rparr>) = path r"
    using root by (cases "normalize_path (path r) = []") (simp_all add: create_route_def)
  ultimately show ?thesis
    using ne nn assms(2) by (simp add: create_route_def record_name_def)
qed

theorem app_route_name_path_roundtrip_witness:
  "counter_route \<in> set app_routes \<and> name counter_route = Some ''Counter'' \<and>
   (\<exists>route. match_to_route (app_matcher browser_env) (Raw_name ''Counter'') ''/Show'' = Inr route \<and>
      route_name route = Some ''Counter'' \<and> route_path route = path counter_route)"
proof -
  have r: "counter_route \<in> set app_routes" by (simp add: app_routes_def)
  have n: "name counter_route = Some ''Counter''" by (simp add: counter_route_def)
  show ?thesis using app_route_name_path_roundtrip [OF r n, of browser_env "''/Show''"] r n by blast
qed

text \<open>
  C20: on the exported router outside a browser, a \<^verbatim>\<open>replace\<close> from the start
  leaves the index at \<open>-1\<close> (\<^verbatim>\<open>stack.slice(0, -1)\<close> of the empty stack), so
  whatever location it replaced with, the next completed \<^verbatim>\<open>push\<close> writes over
  that entry: the stack then holds the pushed route alone, at index 0, and there is
  nothing to go back to.
\<close>

theorem app_replace_then_push:
  assumes "history_run (app_matcher env) [Replace a, Push b] history_start = Inr ([r1, None], h)"
  shows "hist_index h = 0 \<and> length (hist_stack h) = 1 \<and> hist_current h = Some (hd (hist_stack h))"
  using assms by (rule history_replace_then_push)

theorem app_replace_then_push_witness:
  "\<exists>h. history_run (app_matcher browser_env) [Replace (Raw_path ''/Show''), Push (Raw_path ''/Counter'')]
       history_start = Inr ([None, None], h) \<and> hist_index h = 0 \<and> length (hist_stack h) = 1"
proof -
  have c1: "reference_match app_routes ''/Show'' = Some (make_route_record show_route)"
    and c2: "reference_match app_routes ''/Counter'' = Some (make_route_record counter_route)"
    by (simp_all add: app_eval)
  obtain h where run: "history_run (app_matcher browser_env)
      [Replace (Raw_path ''/Show''), Push (Raw_path ''/Counter'')] history_start = Inr ([None, None], h)"
    by (simp add: app_history_eval c1 c2)
  show ?thesis using app_replace_then_push [OF run] run by blast
qed

text \<open>
  C22: back and forth on the exported router's history: from any reachable state at a
  stack position, \<^verbatim>\<open>go(n)\<close> to a position within the stack followed by
  \<^verbatim>\<open>go(-n)\<close> restores the index and leaves the stack alone, and the current route
  is then the same route as the one stacked there (whether each step completed or was
  aborted as a duplicate).
\<close>

theorem app_history_go_roundtrip:
  assumes "history_reachable (app_matcher env) h" and "0 \<le> hist_index h"
    and "0 \<le> hist_index h + n" and "hist_index h + n < int (length (hist_stack h))"
  shows "\<exists>rs h'. history_run (app_matcher env) [Go n, Go (- n)] h = Inr (rs, h') \<and>
           hist_index h' = hist_index h \<and> hist_stack h' = hist_stack h \<and>
           (\<exists>c. hist_current h' = Some c \<and> same_route (hist_stack h ! nat (hist_index h)) c)"
  using history_go_back [OF history_reachable_inv [OF assms(1)] assms(2-4)] .

theorem app_history_go_roundtrip_witness:
  "\<exists>rs h. history_run (app_matcher browser_env) [Push (Raw_path ''/Counter''), Push (Raw_path ''/Show'')]
       history_start = Inr (rs, h) \<and>
     history_reachable (app_matcher browser_env) h \<and> 0 \<le> hist_index h \<and>
     0 \<le> hist_index h + -1 \<and> hist_index h + -1 < int (length (hist_stack h)) \<and>
     (\<exists>rs' h'. history_run (app_matcher browser_env) [Go (-1), Go (- (-1))] h = Inr (rs', h') \<and>
        hist_index h' = hist_index h \<and> hist_stack h' = hist_stack h)"
proof -
  have c1: "reference_match app_routes ''/Show'' = Some (make_route_record show_route)"
    and c2: "reference_match app_routes ''/Counter'' = Some (make_route_record counter_route)"
    by (simp_all add: app_eval)
  obtain rs h where run: "history_run (app_matcher browser_env) [Push (Raw_path ''/Counter''), Push (Raw_path ''/Show'')]
       history_start = Inr (rs, h)" and idx: "hist_index h = 1" and len: "length (hist_stack h) = 2"
    by (simp add: app_history_eval c1 c2)
  have r: "history_reachable (app_matcher browser_env) h"
    by (rule history_run_reachable [OF history_reachable.start run])
  have a: "0 \<le> hist_index h" "0 \<le> hist_index h + -1" "hist_index h + -1 < int (length (hist_stack h))"
    using idx len by simp_all
  show ?thesis using app_history_go_roundtrip [OF r a] run r a by blast
qed

end
