(* ===== verification/Spec2Isabelle.thy ===== *)
theory Spec2Isabelle
  imports App_History
begin

text \<open>
  \<^bold>\<open>What is verified.\<close> The repository's only source file,
  \<^verbatim>\<open>src/vue-frontend/src/router/index.js\<close>, registers the vue-router plugin with
  Vue (\<^verbatim>\<open>Vue.use(Router)\<close>, line 7) and exports a router built from a table of
  three routes (lines 9-27): \<^verbatim>\<open>/\<close> named Home showing the Home view,
  \<^verbatim>\<open>/Counter\<close> named Counter, \<^verbatim>\<open>/Show\<close> named Show. The program has no logic of
  its own; what it means is what the hosting framework does with the table. The
  development therefore models the module exactly and the parts of Vue 2 and
  vue-router 3 that interpret it from their documented behaviour, and proves what the
  table means to the framework: every plain absolute path, every name and every plain
  relative location resolves to the view the table gives it (or to none), no two
  routes overlap so their order does not matter, the built matcher is the table, the
  history of the exported router keeps its invariants, and a module load installs the
  router once, can be repeated, and what a failing load leaves behind. Facts that are
  only the literal table read back (its length, the distinctness of its three paths)
  are not stated as properties: they are what the definitions say.

  \<^bold>\<open>Theories, in import order.\<close>
  \<^item> \<open>Prelude\<close>: JavaScript built-ins on strings (\<^verbatim>\<open>split\<close>, \<^verbatim>\<open>join\<close>,
    \<^verbatim>\<open>indexOf\<close>/\<^verbatim>\<open>slice\<close>) as \<open>split_on\<close>, \<open>join_on\<close>, \<open>before_char\<close>,
    \<open>from_char\<close>; exceptions as \<open>js_error + 'a\<close> sequenced by \<open>js_bind\<close>, and,
    for code that mutates Vue's shared state before it throws, as \<open>'s js_thrown\<close>,
    the exception with the state at the throw (JavaScript undoes nothing); shared
    lemmas on \<open>find\<close>; the collection \<open>js_simps\<close>.
  \<^item> \<open>Path_Match\<close>: vue-router's \<^verbatim>\<open>normalizePath\<close> (\<open>normalize_path\<close>), the
    path-to-regexp compilation of a route path (\<open>compile_route_regex\<close>, with the
    \<^verbatim>\<open>i\<close> flag's Canonicalize as \<open>canonicalize\<close>/\<open>fold_case\<close>) and its
    matching (\<open>regex_matches\<close>), \<^verbatim>\<open>parsePath\<close> (\<open>parse_path\<close>) and
    \<^verbatim>\<open>resolvePath\<close> (\<open>resolve_path\<close>); a relative path of plain segments
    resolves to the directory of the base followed by it
    (\<open>resolve_path_plain_relative\<close>), from a one-segment base to the root
    followed by it (\<open>resolve_path_sibling\<close>), also after any number of leading
    \<^verbatim>\<open>../\<close>, which never climb above the root (\<open>resolve_path_parents\<close>). Route paths are exact for the fragment
    without parameters, groups or escapes (\<open>static_route_path\<close>) plus the catch-all
    \<^verbatim>\<open>*\<close>; other paths compile to \<open>Unmodelled\<close>.
  \<^item> \<open>Route_Map\<close>: create-route-map.js and the path branch of create-matcher.js:
    route configurations (\<open>route_config\<close>: \<open>path\<close>, \<open>name\<close>, \<open>component\<close>,
    polymorphic in the component type), records, the route map (path list, path map,
    name map), \<open>add_route_record\<close>, \<open>create_route_map\<close> with its wildcard loop
    translated index for index (\<open>wildcard_loop\<close>, \<open>move_wildcards\<close>), and
    \<open>match_path\<close>, whose missing-record branch is the TypeError JavaScript would
    raise. Lemmas: the invariant \<open>route_map_inv\<close> holds
    for every map built (\<open>create_route_map_inv\<close>); the path-map lookup equals the
    reference first-match over the declared routes (\<open>match_path_reference\<close>, via
    the abstraction \<open>route_records\<close>); every declared path of a well-formed table
    resolves to its own record (\<open>match_declared_path\<close>); the first declaration of a
    name wins (\<open>name_map_first_declared\<close>); the wildcard loop computes its
    reference, the non-wildcard paths in order and then the wildcards
    (\<open>move_wildcards_wildcards_last\<close>); on a well-formed table at most one route
    matches a location, so matching and the name map depend only on the set of routes,
    not on their order (\<open>reference_match_same_routes\<close>,
    \<open>name_map_same_routes\<close>); on such a table the built map, read back through its
    path list, is the table's records in order and its name map is the lookup of the
    table's (name, record) pairs (\<open>route_records_create_route_map\<close>,
    \<open>name_map_create_route_map\<close>).
  \<^item> \<open>Router\<close>: the \<^verbatim>\<open>VueRouter\<close> constructor (\<open>new_router\<close>: matcher, mode,
    fallback), \<^verbatim>\<open>normalizeLocation\<close> (\<open>normalize_location\<close>) and
    \<^verbatim>\<open>router.match\<close> (\<open>route_match\<close>, \<open>router_match\<close>), and the view a match
    renders (\<open>resolved_view\<close>). Lemmas: matching never raises
    (\<open>router_match_never_fails\<close>), query and hash are ignored, names are looked up
    in the name map, and the whole match is independent of the order of a well-formed
    table (\<open>route_match_same_routes\<close>).
  \<^item> \<open>Vue_Global\<close>: Vue's global state as an extensible record and
    \<^verbatim>\<open>Vue.use\<close> (\<open>vue_use\<close>), parametric in the plugin's install function (the
    interface between Vue and a plugin), with \<^verbatim>\<open>Vue.mixin\<close>,
    \<^verbatim>\<open>Vue.component\<close> and \<^verbatim>\<open>Object.defineProperty\<close> on the prototype, which
    throws when a property is defined twice. An install that throws passes on the
    state it had reached, and the plugin is not recorded. Lemmas: \<open>vue_use\<close> is
    idempotent and keeps the plugin list distinct.
  \<^item> \<open>Router_Install\<close>: vue-router's \<^verbatim>\<open>install\<close> (\<open>router_install\<close>) on the
    runtime extended by its module flag \<^verbatim>\<open>install.installed\<close>, which it sets
    before any step that can throw.
  \<^item> \<open>Router_Config\<close>: the module itself, line by line: the imported views
    (\<open>component\<close>, lines 3-5), the plugin (\<open>plugin\<close>, line 2, dispatched to its
    install by \<open>plugin_install\<close>, line 7), the three route literals
    (\<open>home_route\<close>, \<open>counter_route\<close>, \<open>show_route\<close>, lines 11-25), the table
    (\<open>app_routes\<close>, lines 10-26), the options and the exported router
    (\<open>app_router_options\<close>, \<open>app_router\<close>, lines 9-27) and the evaluation of the
    module on the runtime (\<open>load_router_module\<close>, lines 1-27). Its theorems are the
    properties of the program (claims C1, C3-C9, C13-C16, C18 and C21).
  \<^item> \<open>Abstract_History\<close>: vue-router's abstract history (history/abstract.js,
    the mode the router takes outside a browser) as a state machine: the route object
    (\<open>create_route\<close>, \<open>match_to_route\<close>), \<^verbatim>\<open>isSameRoute\<close> (\<open>same_route\<close>), the
    NavigationDuplicated test of \<^verbatim>\<open>confirmTransition\<close>
    (\<open>navigation_duplicated\<close>), the state (current route, stack, index) with
    \<^verbatim>\<open>push\<close>, \<^verbatim>\<open>replace\<close> and \<^verbatim>\<open>go\<close> (\<open>history_push\<close>,
    \<open>history_replace\<close>, \<open>history_go\<close>, dispatched by \<open>history_op\<close> on a datatype
    of navigations), runs of navigations (\<open>history_run\<close>) and the reachable states as
    an \<^theory_text>\<open>inductive\<close> relation. Lemmas: the index-within-stack invariant
    \<open>history_inv\<close> is preserved by every navigation and holds in every reachable state
    (rule induction). \<^verbatim>\<open>stack[target]\<close> in \<^verbatim>\<open>go\<close> is a JavaScript array read
    (\<open>js_array_get\<close>), \<^verbatim>\<open>undefined\<close> past the end, on which
    \<^verbatim>\<open>confirmTransition\<close> throws; the bounds guard makes that branch unreachable
    (\<open>history_go_total\<close>), and push and replace never throw on a well-formed map. A
    repeated push of a plain path is a duplicate; a completed push discards the entries
    after the current one (\<open>history_push_completed\<close>); a replace from the start is
    overwritten by the next push (\<open>history_replace_then_push\<close>); \<^verbatim>\<open>go(n)\<close> then
    \<^verbatim>\<open>go(-n)\<close> within the stack restores index and stack (\<open>history_go_back\<close>).
  \<^item> \<open>App_History\<close>: that machine run over the exported router's matcher (claims
    C10-C12, C17, C19, C20 and C22): the invariant on every reachable state, no
    navigation throws, a repeated push is rejected, a completed push discards the
    forward entries, the route object built for a declared path or name carries that
    route's name and path, a \<^verbatim>\<open>replace\<close> from the start is lost at the next
    \<^verbatim>\<open>push\<close>, and going back and forth within the stack returns to the same
    position.
  \<^item> this theory: the spec's view of the table, a lookup of the exact declared path
    (\<open>spec_resolve\<close>, spec section 8), and the refinement theorem that the router
    implements it on every well-formed table, applied to the module's table (C2).

  \<^bold>\<open>Bounds and termination.\<close> The loops over a list (\<^verbatim>\<open>routes.forEach\<close>,
  the path-list loop of \<^verbatim>\<open>match\<close>, the segment loop of \<^verbatim>\<open>resolvePath\<close>) are
  \<open>foldl\<close> or structural \<open>fun\<close>. The wildcard loop of \<^verbatim>\<open>createRouteMap\<close>
  moves its index back and its bound down, so it is a \<^theory_text>\<open>function\<close> whose
  termination is proved with the measure \<open>l - i\<close>, which drops by one in every round
  whichever branch is taken. Every definition is therefore total and executable and no
  fuel is needed. A run of navigations (\<open>history_run\<close>) recurses on the list of
  navigations; the history index is an \<open>int\<close>, as the JavaScript number it models
  starts at \<open>-1\<close>.

  \<^bold>\<open>Not modelled.\<close> The view components Home, Counter and Show (their files are
  not in the sources; they are opaque constructors), rendering and the browser's
  histories (hash listeners, \<^verbatim>\<open>pushState\<close>; only the mode choice and the abstract
  history are modelled), navigation guards and hooks (the transition of the abstract
  history completes synchronously, as it does without guards and async components),
  route parameters, nested routes, aliases and redirects (the table uses none), query
  parsing (the query is kept as the raw string), and JavaScript strings beyond 8-bit
  code units. A second evaluation of the module (C6, C18) stands for a reload such as
  hot-module replacement on the same Vue runtime; a browser's module map evaluates a
  module once. The module has no loop of its own, so the development has no termination
  property of the program: the one library loop that needs a termination argument, the
  wildcard loop, gets it in its definition.

  \<^bold>\<open>Further work.\<close> The parts of the hosting library the module does not
  exercise, in the order they would matter to it:
  \<^enum> \<^verbatim>\<open>resolvePath\<close> with dot segments inside the path: \<^verbatim>\<open>..\<close> cancels the
    segment before it and \<^verbatim>\<open>.\<close> is dropped;
  \<^enum> the \<^verbatim>\<open>router.resolve\<close> and \<^verbatim>\<open>getRoutes\<close> views of the matcher, and the
    named-route path filled back into the location (\<^verbatim>\<open>fillParams\<close> on a path with
    no parameters is the identity).
\<close>

section \<open>The spec's view of the route table\<close>

text \<open>
  Spec section 8: "navigating to \<^verbatim>\<open>/\<close> resolves to the Home view; to
  \<^verbatim>\<open>/Counter\<close> resolves to Counter; to \<^verbatim>\<open>/Show\<close> resolves to Show". As an
  abstract specification: the view of the declared route whose path is the location.
\<close>

definition spec_resolve :: "'c route_config list \<Rightarrow> string \<Rightarrow> 'c option" where
  "spec_resolve table p = map_option component (find (\<lambda>r. path r = p) table)"

section \<open>Refinement\<close>

lemma distinct_route_paths_paths:
  "distinct_route_paths table \<Longrightarrow> distinct (map path table)"
  by (auto simp: distinct_route_paths_def distinct_map inj_on_def)

lemma spec_resolve_declared:
  assumes "distinct (map path table)" and "r \<in> set table"
  shows "spec_resolve table (path r) = Some (component r)"
proof -
  have "find (\<lambda>q. path q = path r) table = Some r"
  proof (rule find_unique)
    fix q assume "q \<in> set table" and "path q = path r"
    with assms show "q = r" by (auto simp: distinct_map dest: inj_onD)
  qed (use assms in auto)
  then show ?thesis by (simp add: spec_resolve_def)
qed

lemma router_refines_spec:
  assumes wf: "distinct_route_paths (routes options)"
    and plain: "list_all (\<lambda>r. plain_absolute_path (path r)) (routes options)"
    and p: "p \<in> path ` set (routes options)"
  shows "resolved_view (new_router env options) (Raw_path p) current = Inr (spec_resolve (routes options) p)"
proof -
  from p obtain r where r: "r \<in> set (routes options)" and pr: "p = path r" by auto
  have "plain_absolute_path p" using plain r pr by (simp add: list_all_iff)
  then have "router_match (new_router env options) (Raw_path p) current =
      match_path (create_route_map (routes options)) (path r)"
    by (simp add: router_match_def route_match_absolute matcher_new_router pr)
  also have "\<dots> = Inr (Some (make_route_record r))"
    by (rule match_declared_path [OF wf r])
  finally show ?thesis
    using spec_resolve_declared [OF distinct_route_paths_paths [OF wf] r]
    by (simp add: resolved_view_def pr)
qed

text \<open>
  C2: the exported router refines the spec's lookup: navigating to any path the table
  declares renders the view the spec's lookup of that path gives.
\<close>

theorem app_router_refines_spec:
  assumes "p \<in> path ` set app_routes"
  shows "resolved_view (app_router env) (Raw_path p) current = Inr (spec_resolve app_routes p)"
proof -
  have table: "routes app_router_options = app_routes"
    by (simp add: app_router_options_def)
  show ?thesis
    using router_refines_spec [of app_router_options p env current] assms
      app_routes_distinct_route_paths app_paths_plain
    by (simp add: table app_router_def)
qed

theorem app_router_refines_spec_witness:
  "''/Counter'' \<in> path ` set app_routes \<and>
   resolved_view (app_router browser_env) (Raw_path ''/Counter'') ''/'' = Inr (spec_resolve app_routes ''/Counter'')"
proof -
  have p: "''/Counter'' \<in> path ` set app_routes" by (simp add: app_defs)
  show ?thesis using app_router_refines_spec [OF p, of browser_env "''/''"] p by blast
qed

end
